theory Spec2Isabelle
  imports Complex_Main "HOL-Library.Char_ord" "HOL-Library.List_Lexorder" "HOL-Library.Sublist"
begin

section \<open>Values decoded from JSON\<close>

text \<open>
  \<open>response.json()\<close> yields Python values built from \<open>None\<close>, \<open>bool\<close>, \<open>int\<close>, \<open>float\<close>,
  \<open>str\<close>, \<open>list\<close> and \<open>dict\<close> (with \<open>str\<close> keys).  A finite float is represented by the
  rational number it denotes; the non-finite floats (NaN and the infinities) are not
  represented.  A dict is the list of its items in insertion order, read with
  \<open>map_of\<close>.

  A \<open>str\<close> is held as the bytes of its UTF-8 form, which compare and order as the code
  points do.  A lone surrogate, which \<open>"\ud83d"\<close> in a response decodes to and which
  UTF-8 proper refuses, is held as the three bytes that the \<open>surrogatepass\<close> handler
  gives it: \<open>0xED\<close>, a byte from \<open>0xA0\<close> to \<open>0xBF\<close>, and a continuation byte.
\<close>

datatype json =
    JNull
  | JBool bool
  | JInt int
  | JFloat rat
  | JStr string
  | JList "json list"
  | JObj "(string \<times> json) list"

datatype error =
    KeyError
  | TypeError
  | AttributeError
  | ValueError
  | JSONDecodeError
  | ConnectionError
  | RedditAPIError
  | FileNotFoundError
  | UnicodeEncodeError

definition bind_err :: "error + 'a \<Rightarrow> ('a \<Rightarrow> error + 'b) \<Rightarrow> error + 'b" where
  "bind_err m f = (case m of Inl e \<Rightarrow> Inl e | Inr x \<Rightarrow> f x)"

text \<open>\<open>x[k]\<close> with a \<open>str\<close> key: only a dict accepts it; a missing key is a \<open>KeyError\<close>,
  any other value raises \<open>TypeError\<close>.\<close>

fun py_getitem :: "json \<Rightarrow> string \<Rightarrow> error + json" where
  "py_getitem (JObj kvs) k = (case map_of kvs k of Some v \<Rightarrow> Inr v | None \<Rightarrow> Inl KeyError)"
| "py_getitem _ k = Inl TypeError"

text \<open>\<open>x.get(k, d)\<close>: a method of dict only; any other value raises \<open>AttributeError\<close>.\<close>

fun py_get :: "json \<Rightarrow> string \<Rightarrow> json \<Rightarrow> error + json" where
  "py_get (JObj kvs) k d = Inr (case map_of kvs k of Some v \<Rightarrow> v | None \<Rightarrow> d)"
| "py_get _ k d = Inl AttributeError"

text \<open>The characters of a \<open>str\<close>: each is a byte that is not a continuation byte
  (\<open>0x80\<close> to \<open>0xBF\<close>) with the continuation bytes that follow it.\<close>

definition is_continuation :: "char \<Rightarrow> bool" where
  "is_continuation c = (128 \<le> (of_char c :: nat) \<and> (of_char c :: nat) < 192)"

function utf8_chars :: "string \<Rightarrow> string list" where
  "utf8_chars [] = []"
| "utf8_chars (c # cs) =
     (c # takeWhile is_continuation cs) # utf8_chars (dropWhile is_continuation cs)"
  by pat_completeness auto

termination utf8_chars
  by (relation "measure length") (auto simp: le_imp_less_Suc length_dropWhile_le)

text \<open>\<open>for x in v\<close>: a list yields its elements, a str its characters, a dict its keys;
  the other values are not iterable.\<close>

fun py_iter :: "json \<Rightarrow> error + json list" where
  "py_iter (JList xs) = Inr xs"
| "py_iter (JStr s) = Inr (map JStr (utf8_chars s))"
| "py_iter (JObj kvs) = Inr (map (\<lambda>kv. JStr (fst kv)) kvs)"
| "py_iter _ = Inl TypeError"

text \<open>An f-string \<open>f"prefix{v}"\<close> is kept as its literal prefix and the interpolated value.\<close>

datatype fstring = FString string json

section \<open>Canonical records\<close>

record reddit_post =
  p_id :: json
  p_title :: json
  p_selftext :: json
  p_subreddit :: json
  p_author :: json
  p_score :: json
  p_num_comments :: json
  p_created_utc :: json
  p_permalink :: fstring
  p_fetched_at :: string

record youtube_video =
  v_videoId :: json
  v_title :: json
  v_description :: json
  v_channelTitle :: json
  v_publishedAt :: json
  v_url :: fstring
  v_fetched_at :: string

section \<open>Field extractors\<close>

text \<open>\<open>try: ... except KeyError: return None\<close>: only \<open>KeyError\<close> is caught.\<close>

definition except_KeyError :: "error + 'a \<Rightarrow> error + 'a option" where
  "except_KeyError m =
     (case m of Inl e \<Rightarrow> (if e = KeyError then Inr None else Inl e) | Inr x \<Rightarrow> Inr (Some x))"

text \<open>\<open>RedditFetcher._extract_post_data\<close>.  The first argument is the value of
  \<open>datetime.now().isoformat()\<close>, which is read last, after every field access.\<close>

definition extract_post_data :: "string \<Rightarrow> json \<Rightarrow> error + reddit_post option" where
  "extract_post_data now post_data = except_KeyError (
     bind_err (py_getitem post_data ''data'') (\<lambda>data.
     bind_err (py_getitem data ''id'') (\<lambda>i.
     bind_err (py_getitem data ''title'') (\<lambda>t.
     bind_err (py_get data ''selftext'' (JStr '''')) (\<lambda>st.
     bind_err (py_getitem data ''subreddit'') (\<lambda>sr.
     bind_err (py_get data ''author'' (JStr ''[deleted]'')) (\<lambda>au.
     bind_err (py_get data ''score'' (JInt 0)) (\<lambda>sc.
     bind_err (py_get data ''num_comments'' (JInt 0)) (\<lambda>nc.
     bind_err (py_getitem data ''created_utc'') (\<lambda>cu.
     bind_err (py_getitem data ''permalink'') (\<lambda>pl.
     Inr \<lparr> p_id = i, p_title = t, p_selftext = st, p_subreddit = sr, p_author = au,
           p_score = sc, p_num_comments = nc, p_created_utc = cu,
           p_permalink = FString ''https://www.reddit.com'' pl,
           p_fetched_at = now \<rparr>)))))))))))"

text \<open>\<open>YouTubeFetcher._extract_video_data\<close>.\<close>

definition extract_video_data :: "string \<Rightarrow> json \<Rightarrow> error + youtube_video option" where
  "extract_video_data now item = except_KeyError (
     bind_err (py_getitem item ''id'') (\<lambda>ident.
     bind_err (py_getitem ident ''videoId'') (\<lambda>video_id.
     bind_err (py_getitem item ''snippet'') (\<lambda>snippet.
     bind_err (py_getitem snippet ''title'') (\<lambda>t.
     bind_err (py_getitem snippet ''description'') (\<lambda>d.
     bind_err (py_getitem snippet ''channelTitle'') (\<lambda>ct.
     bind_err (py_getitem snippet ''publishedAt'') (\<lambda>pa.
     Inr \<lparr> v_videoId = video_id, v_title = t, v_description = d, v_channelTitle = ct,
           v_publishedAt = pa,
           v_url = FString ''https://www.youtube.com/watch?v='' video_id,
           v_fetched_at = now \<rparr>))))))))"

section \<open>Hashing, equality and order of decoded values\<close>

text \<open>
  A set of Python values identifies its members by \<open>hash\<close> and \<open>==\<close>.  \<open>None\<close>, numbers
  and strings are hashable; \<open>True == 1 == 1.0\<close> with equal hashes, so a number is
  identified by its value; lists and dicts are unhashable (\<open>TypeError\<close>).
\<close>

datatype hkey = HNone | HNum rat | HStr string

fun scalar_key :: "json \<Rightarrow> hkey option" where
  "scalar_key JNull = Some HNone"
| "scalar_key (JBool b) = Some (HNum (if b then 1 else 0))"
| "scalar_key (JInt i) = Some (HNum (of_int i))"
| "scalar_key (JFloat q) = Some (HNum q)"
| "scalar_key (JStr s) = Some (HStr s)"
| "scalar_key (JList xs) = None"
| "scalar_key (JObj kvs) = None"

definition py_hash_key :: "json \<Rightarrow> error + hkey" where
  "py_hash_key x = (case scalar_key x of None \<Rightarrow> Inl TypeError | Some k \<Rightarrow> Inr k)"

text \<open>
  \<open>x == y\<close> never raises on decoded values.  Lists are equal elementwise; two dicts are
  equal when each item of one is found, with an equal value, in the other (CPython
  compares the sizes and looks the items of the left dict up in the right one, which is
  the same for dicts, whose keys are distinct).
\<close>

function py_eq :: "json \<Rightarrow> json \<Rightarrow> bool" where
  "py_eq (JList xs) (JList ys) = list_all2 py_eq xs ys"
| "py_eq (JObj a) (JObj b) =
     ((\<forall>kv \<in> set a. case map_of b (fst kv) of None \<Rightarrow> False | Some w \<Rightarrow> py_eq (snd kv) w) \<and>
      (\<forall>kv \<in> set b. case map_of a (fst kv) of None \<Rightarrow> False | Some v \<Rightarrow> py_eq v (snd kv)))"
| "py_eq (JList xs) JNull = False"
| "py_eq (JList xs) (JBool b) = False"
| "py_eq (JList xs) (JInt i) = False"
| "py_eq (JList xs) (JFloat q) = False"
| "py_eq (JList xs) (JStr s) = False"
| "py_eq (JList xs) (JObj b) = False"
| "py_eq (JObj a) JNull = False"
| "py_eq (JObj a) (JBool b) = False"
| "py_eq (JObj a) (JInt i) = False"
| "py_eq (JObj a) (JFloat q) = False"
| "py_eq (JObj a) (JStr s) = False"
| "py_eq (JObj a) (JList ys) = False"
| "py_eq JNull y = (scalar_key y = Some HNone)"
| "py_eq (JBool c) y = (scalar_key y = scalar_key (JBool c))"
| "py_eq (JInt i) y = (scalar_key y = scalar_key (JInt i))"
| "py_eq (JFloat q) y = (scalar_key y = scalar_key (JFloat q))"
| "py_eq (JStr s) y = (scalar_key y = Some (HStr s))"
  by pat_completeness auto

termination py_eq
proof (relation "measure (\<lambda>(x, y). size x + size y)")
  have elem: "x \<in> set xs \<Longrightarrow> size x < size_list size xs" for x :: json and xs
    by (induction xs) auto
  have item: "kv \<in> set a \<Longrightarrow> size (snd kv) < size_list (size_prod (\<lambda>_. 0) size) a"
    for kv :: "string \<times> json" and a
    by (induction a) auto
  have lookup: "map_of a k = Some v \<Longrightarrow> size v < size_list (size_prod (\<lambda>_. 0) size) a"
    for k :: string and v :: json and a
    using item[of "(k, v)" a] by (auto dest: map_of_SomeD)
  show "wf (measure (\<lambda>(x :: json, y :: json). size x + size y))" by simp
  show "((x, y), JList xs, JList ys) \<in> measure (\<lambda>(x, y). size x + size y)"
    if "x \<in> set xs" "y \<in> set ys" for xs ys x y
    using that elem[of x xs] elem[of y ys] by simp
  show "((snd kv, w), JObj a, JObj b) \<in> measure (\<lambda>(x, y). size x + size y)"
    if "kv \<in> set a" "map_of b (fst kv) = Some w" for a b kv w
    using that item[of kv a] lookup[of b "fst kv" w] by simp
  show "((v, snd kv), JObj a, JObj b) \<in> measure (\<lambda>(x, y). size x + size y)"
    if "kv \<in> set b" "map_of a (fst kv) = Some v" for a b kv v
    using that item[of kv b] lookup[of a "fst kv" v] by simp
qed

text \<open>
  \<open>x < y\<close>: numbers (with \<open>bool\<close> as 0 and 1) compare by value, strings by code point,
  lists lexicographically (the first pair of unequal elements decides, a proper prefix
  is smaller); every other pair raises \<open>TypeError\<close>, here \<open>None\<close>.
\<close>

fun py_lt :: "json \<Rightarrow> json \<Rightarrow> bool option"
  and py_lt_list :: "json list \<Rightarrow> json list \<Rightarrow> bool option" where
  "py_lt (JList xs) (JList ys) = py_lt_list xs ys"
| "py_lt x y =
     (case (scalar_key x, scalar_key y) of
        (Some (HNum a), Some (HNum b)) \<Rightarrow> Some (a < b)
      | (Some (HStr s), Some (HStr t)) \<Rightarrow> Some (s < t)
      | _ \<Rightarrow> None)"
| "py_lt_list [] [] = Some False"
| "py_lt_list [] (y # ys) = Some True"
| "py_lt_list (x # xs) [] = Some False"
| "py_lt_list (x # xs) (y # ys) = (if py_eq x y then py_lt_list xs ys else py_lt x y)"

section \<open>Sorting and slicing\<close>

text \<open>
  \<open>list.sort(key=..., reverse=True)\<close> is stable and orders by \<open><\<close> on the keys.  It raises
  \<open>TypeError\<close> when two keys cannot be ordered; otherwise the result is the stable
  descending arrangement, computed here by insertion from the right.
\<close>

fun all_comparable :: "json list \<Rightarrow> bool" where
  "all_comparable [] = True"
| "all_comparable (k # ks) =
     ((\<forall>k' \<in> set ks. py_lt k k' \<noteq> None \<and> py_lt k' k \<noteq> None) \<and> all_comparable ks)"

fun insort_desc :: "('a \<Rightarrow> json) \<Rightarrow> 'a \<Rightarrow> 'a list \<Rightarrow> 'a list" where
  "insort_desc key x [] = [x]"
| "insort_desc key x (y # ys) =
     (if py_lt (key x) (key y) = Some True then y # insort_desc key x ys else x # y # ys)"

definition sort_reverse :: "('a \<Rightarrow> json) \<Rightarrow> 'a list \<Rightarrow> error + 'a list" where
  "sort_reverse key xs =
     (if all_comparable (map key xs) then Inr (foldr (insort_desc key) xs [])
      else Inl TypeError)"

text \<open>\<open>xs[:n]\<close>: a negative \<open>n\<close> counts from the end.\<close>

definition py_slice_to :: "int \<Rightarrow> 'a list \<Rightarrow> 'a list" where
  "py_slice_to n xs = (if 0 \<le> n then take (nat n) xs else take (length xs - nat (- n)) xs)"

section \<open>Settings, fetchers and the outside world\<close>

text \<open>
  The settings object.  A field read with \<open>.get(key, default)\<close> is optional (\<open>None\<close>
  when the key is missing); a section read with \<open>[key]\<close> raises \<open>KeyError\<close> when missing.
\<close>

record source_config =
  enabled :: "bool option"
  subreddits :: "string list option"
  search_terms :: "string list option"

record run_config =
  out_dir :: "string option"
  max_items_per_source :: "int option"

record config =
  run :: "run_config option"
  sources :: "(string \<rightharpoonup> source_config) option"

datatype item = Post reddit_post | Video youtube_video

record metadata =
  total_items :: nat
  sources_count :: "(string \<times> nat) list"
  fetched_at :: string

record 'a snapshot =
  metadata :: metadata
  data :: "(string \<times> 'a list) list"

text \<open>What a file written by the program holds: a whole snapshot, or the beginning of
  the text of one, cut where the write failed.\<close>

datatype file_content = Snapshot "item snapshot" | Incomplete

datatype request =
    TokenRequest string string
  | HotRequest string int
  | SearchRequest string int string

datatype http_outcome = Raises error | Response int "json option"

record instant =
  isoformat :: string
  strftime :: string

text \<open>
  The world outside the program: the process environment, the settings file (\<open>None\<close>
  when it does not exist), the outcomes of the HTTP requests still to come, in order
  (a request beyond the script fails to connect), the requests sent so far, the clock
  with the number of times it has been read, the files written, in order, and for each
  path the exception, if any, that \<open>open(path, "w")\<close> raises (\<open>FileNotFoundError\<close> when
  a directory of the path is missing).  A path is a directory and a name in it.
\<close>

record world =
  environ :: "string \<rightharpoonup> string"
  config_file :: "config option"
  script :: "http_outcome list"
  sent :: "request list"
  clock :: "nat \<Rightarrow> instant"
  ticks :: nat
  files :: "((string \<times> string) \<times> file_content) list"
  open_outcome :: "string \<times> string \<Rightarrow> error option"

definition datetime_now :: "world \<Rightarrow> instant \<times> world" where
  "datetime_now w = (clock w (ticks w), w\<lparr>ticks := Suc (ticks w)\<rparr>)"

definition http_request :: "request \<Rightarrow> world \<Rightarrow> http_outcome \<times> world" where
  "http_request rq w =
     (case script w of
        [] \<Rightarrow> (Raises ConnectionError, w\<lparr>sent := sent w @ [rq]\<rparr>)
      | r # rs \<Rightarrow> (r, w\<lparr>script := rs, sent := sent w @ [rq]\<rparr>))"

record reddit_fetcher =
  rf_config :: config
  reddit_config :: source_config
  access_token :: json

record youtube_fetcher =
  yf_config :: config
  api_key :: string

section \<open>Source fetchers\<close>

text \<open>
  The inner loop of both fetchers (\<open>for post in posts\<close>, \<open>for item in data.get("items", [])\<close>):
  extract, test the identity key against the seen set, append and mark.  The loop stops
  at the first exception, which the caller's \<open>except Exception\<close> receives; what was
  appended before stays.  The clock is read once for each record built.
\<close>

fun dedup_loop ::
  "(string \<Rightarrow> json \<Rightarrow> error + 'r option) \<Rightarrow> ('r \<Rightarrow> json) \<Rightarrow> json list \<Rightarrow>
   'r list \<times> hkey set \<Rightarrow> world \<Rightarrow> error option \<times> ('r list \<times> hkey set) \<times> world" where
  "dedup_loop extract ident [] st w = (None, st, w)"
| "dedup_loop extract ident (raw # raws) (all_results, seen) w =
     (case extract (isoformat (clock w (ticks w))) raw of
        Inl e \<Rightarrow> (Some e, (all_results, seen), w)
      | Inr None \<Rightarrow> dedup_loop extract ident raws (all_results, seen) w
      | Inr (Some r) \<Rightarrow>
          (case py_hash_key (ident r) of
             Inl e \<Rightarrow> (Some e, (all_results, seen), snd (datetime_now w))
           | Inr k \<Rightarrow>
               if k \<notin> seen
               then dedup_loop extract ident raws (all_results @ [r], insert k seen)
                      (snd (datetime_now w))
               else dedup_loop extract ident raws (all_results, seen) (snd (datetime_now w))))"

text \<open>The body of \<open>for subreddit in subreddits\<close>, in two parts.  First the request and
  the decoding of the response up to the list the inner loop runs over; \<open>None\<close> when the
  status is not 200 or an exception is raised, which \<open>except Exception\<close> swallows.\<close>

definition subreddit_posts :: "string \<Rightarrow> world \<Rightarrow> json list option \<times> world" where
  "subreddit_posts subreddit w =
     (case http_request (HotRequest subreddit 25) w of
        (Raises e, w1) \<Rightarrow> (None, w1)
      | (Response status body, w1) \<Rightarrow>
          if status \<noteq> 200 then (None, w1)
          else (case body of
                  None \<Rightarrow> (None, w1)
                | Some d \<Rightarrow>
                    (case bind_err (py_get d ''data'' (JObj []))
                            (\<lambda>d'. bind_err (py_get d' ''children'' (JList [])) py_iter) of
                       Inl e \<Rightarrow> (None, w1)
                     | Inr posts \<Rightarrow> (Some posts, w1))))"

text \<open>Then the inner loop; an exception that ends it is swallowed as well, and the outer
  loop goes on with the next subreddit.\<close>

definition fetch_subreddit ::
  "string \<Rightarrow> reddit_post list \<times> hkey set \<Rightarrow> world \<Rightarrow> (reddit_post list \<times> hkey set) \<times> world" where
  "fetch_subreddit subreddit st w =
     (case subreddit_posts subreddit w of
        (None, w1) \<Rightarrow> (st, w1)
      | (Some posts, w1) \<Rightarrow> snd (dedup_loop extract_post_data p_id posts st w1))"

fun fetch_subreddits ::
  "string list \<Rightarrow> reddit_post list \<times> hkey set \<Rightarrow> world \<Rightarrow> (reddit_post list \<times> hkey set) \<times> world" where
  "fetch_subreddits [] st w = (st, w)"
| "fetch_subreddits (subreddit # rest) st w =
     (case fetch_subreddit subreddit st w of (st', w') \<Rightarrow> fetch_subreddits rest st' w')"

text \<open>\<open>RedditFetcher.fetch_reddit_posts\<close>.  The sort is outside every \<open>try\<close>, so its
  \<open>TypeError\<close> leaves the function.\<close>

definition fetch_reddit_posts ::
  "reddit_fetcher \<Rightarrow> int \<Rightarrow> world \<Rightarrow> (error + reddit_post list) \<times> world" where
  "fetch_reddit_posts self max_items w =
     (if \<not> (case enabled (reddit_config self) of None \<Rightarrow> False | Some b \<Rightarrow> b) then (Inr [], w)
      else case (case subreddits (reddit_config self) of None \<Rightarrow> [] | Some l \<Rightarrow> l) of
        [] \<Rightarrow> (Inr [], w)
      | subs \<Rightarrow>
          (case fetch_subreddits subs ([], {}) w of
             ((all_results, seen_post_ids), w') \<Rightarrow>
               (case sort_reverse p_score all_results of
                  Inl e \<Rightarrow> (Inl e, w')
                | Inr sorted_results \<Rightarrow> (Inr (py_slice_to max_items sorted_results), w'))))"

text \<open>The body of \<open>for term in search_terms\<close>, in the same two parts.  The request
  parameters are built before \<open>try\<close>; \<open>div\<close> on \<open>int\<close> rounds towards minus infinity, as
  \<open>//\<close> does, and the divisor is the length of a non-empty list.\<close>

definition term_items ::
  "youtube_fetcher \<Rightarrow> int \<Rightarrow> string list \<Rightarrow> string \<Rightarrow> world \<Rightarrow> json list option \<times> world" where
  "term_items self max_items terms term w =
     (case http_request
             (SearchRequest term (max_items div int (length terms)) (api_key self)) w of
        (Raises e, w1) \<Rightarrow> (None, w1)
      | (Response status body, w1) \<Rightarrow>
          if status \<noteq> 200 then (None, w1)
          else (case body of
                  None \<Rightarrow> (None, w1)
                | Some d \<Rightarrow>
                    (case bind_err (py_get d ''items'' (JList [])) py_iter of
                       Inl e \<Rightarrow> (None, w1)
                     | Inr items \<Rightarrow> (Some items, w1))))"

definition fetch_term ::
  "youtube_fetcher \<Rightarrow> int \<Rightarrow> string list \<Rightarrow> string \<Rightarrow> youtube_video list \<times> hkey set \<Rightarrow>
   world \<Rightarrow> (youtube_video list \<times> hkey set) \<times> world" where
  "fetch_term self max_items terms term st w =
     (case term_items self max_items terms term w of
        (None, w1) \<Rightarrow> (st, w1)
      | (Some items, w1) \<Rightarrow> snd (dedup_loop extract_video_data v_videoId items st w1))"

fun fetch_terms ::
  "youtube_fetcher \<Rightarrow> int \<Rightarrow> string list \<Rightarrow> string list \<Rightarrow> youtube_video list \<times> hkey set \<Rightarrow>
   world \<Rightarrow> (youtube_video list \<times> hkey set) \<times> world" where
  "fetch_terms self max_items terms [] st w = (st, w)"
| "fetch_terms self max_items terms (term # rest) st w =
     (case fetch_term self max_items terms term st w of
        (st', w') \<Rightarrow> fetch_terms self max_items terms rest st' w')"

text \<open>\<open>YouTubeFetcher.fetch_youtube_videos\<close>.\<close>

definition fetch_youtube_videos ::
  "youtube_fetcher \<Rightarrow> int \<Rightarrow> world \<Rightarrow> (error + youtube_video list) \<times> world" where
  "fetch_youtube_videos self max_items w =
     (case bind_err (case sources (yf_config self) of None \<Rightarrow> Inl KeyError | Some s \<Rightarrow> Inr s)
             (\<lambda>s. case s ''youtube'' of None \<Rightarrow> Inl KeyError | Some c \<Rightarrow> Inr c) of
        Inl e \<Rightarrow> (Inl e, w)
      | Inr youtube_config \<Rightarrow>
          if \<not> (case enabled youtube_config of None \<Rightarrow> False | Some b \<Rightarrow> b) then (Inr [], w)
          else case (case search_terms youtube_config of None \<Rightarrow> [] | Some l \<Rightarrow> l) of
            [] \<Rightarrow> (Inr [], w)
          | terms \<Rightarrow>
              (case fetch_terms self max_items terms terms ([], {}) w of
                 ((all_results, seen_video_ids), w') \<Rightarrow>
                   (case sort_reverse v_publishedAt all_results of
                      Inl e \<Rightarrow> (Inl e, w')
                    | Inr sorted_results \<Rightarrow> (Inr (py_slice_to max_items sorted_results), w'))))"

section \<open>Collector\<close>

text \<open>\<open>YouTubeFetcher.__init__\<close>: an unset or empty key raises \<open>ValueError\<close>.\<close>

definition YouTubeFetcher_init :: "config \<Rightarrow> world \<Rightarrow> error + youtube_fetcher" where
  "YouTubeFetcher_init cfg w =
     (case environ w ''YOUTUBE_API_KEY'' of
        None \<Rightarrow> Inl ValueError
      | Some k \<Rightarrow> if k = [] then Inl ValueError else Inr \<lparr> yf_config = cfg, api_key = k \<rparr>)"

text \<open>\<open>RedditFetcher.__init__\<close> with \<open>_authenticate\<close>: the client-credentials exchange.
  Encoding the credentials as ASCII fails on a byte above 127.\<close>

definition RedditFetcher_init :: "config \<Rightarrow> world \<Rightarrow> (error + reddit_fetcher) \<times> world" where
  "RedditFetcher_init cfg w =
     (case bind_err (case sources cfg of None \<Rightarrow> Inl KeyError | Some s \<Rightarrow> Inr s)
             (\<lambda>s. case s ''reddit'' of None \<Rightarrow> Inl KeyError | Some c \<Rightarrow> Inr c) of
        Inl e \<Rightarrow> (Inl e, w)
      | Inr rc \<Rightarrow>
          (case (environ w ''REDDIT_CLIENT_ID'', environ w ''REDDIT_CLIENT_SECRET'') of
             (Some client_id, Some client_secret) \<Rightarrow>
               if client_id = [] \<or> client_secret = [] then (Inl RedditAPIError, w)
               else if \<exists>c \<in> set (client_id @ '':'' @ client_secret). 128 \<le> (of_char c :: nat)
               then (Inl UnicodeEncodeError, w)
               else (case http_request (TokenRequest client_id client_secret) w of
                       (Raises e, w1) \<Rightarrow> (Inl e, w1)
                     | (Response status body, w1) \<Rightarrow>
                         if status = 200
                         then (case body of
                                 None \<Rightarrow> (Inl JSONDecodeError, w1)
                               | Some token_data \<Rightarrow>
                                   (case py_getitem token_data ''access_token'' of
                                      Inl e \<Rightarrow> (Inl e, w1)
                                    | Inr tok \<Rightarrow>
                                        (Inr \<lparr> rf_config = cfg, reddit_config = rc,
                                               access_token = tok \<rparr>, w1)))
                         else (Inl RedditAPIError, w1))
           | _ \<Rightarrow> (Inl RedditAPIError, w)))"

record data_collector =
  dc_config :: config
  dc_out_dir :: string
  dc_youtube_fetcher :: youtube_fetcher
  dc_reddit_fetcher :: reddit_fetcher

text \<open>\<open>DataCollector.__init__\<close>: load the settings, then build the YouTube fetcher and
  the Reddit fetcher, in this order and outside any \<open>try\<close>.\<close>

definition DataCollector_init :: "world \<Rightarrow> (error + data_collector) \<times> world" where
  "DataCollector_init w =
     (case config_file w of
        None \<Rightarrow> (Inl FileNotFoundError, w)
      | Some cfg \<Rightarrow>
          (case bind_err (case run cfg of None \<Rightarrow> Inl KeyError | Some r \<Rightarrow> Inr r)
                  (\<lambda>r. case out_dir r of None \<Rightarrow> Inl KeyError | Some d \<Rightarrow> Inr d) of
             Inl e \<Rightarrow> (Inl e, w)
           | Inr d \<Rightarrow>
               (case YouTubeFetcher_init cfg w of
                  Inl e \<Rightarrow> (Inl e, w)
                | Inr yf \<Rightarrow>
                    (case RedditFetcher_init cfg w of
                       (Inl e, w1) \<Rightarrow> (Inl e, w1)
                     | (Inr rf, w1) \<Rightarrow>
                         (Inr \<lparr> dc_config = cfg, dc_out_dir = d, dc_youtube_fetcher = yf,
                                dc_reddit_fetcher = rf \<rparr>, w1)))))"

text \<open>\<open>d[k] = v\<close> on a dict kept as its item list.\<close>

definition dict_set :: "'k \<Rightarrow> 'v \<Rightarrow> ('k \<times> 'v) list \<Rightarrow> ('k \<times> 'v) list" where
  "dict_set k v d =
     (if k \<in> fst ` set d then map (\<lambda>kv. if fst kv = k then (k, v) else kv) d else d @ [(k, v)])"

definition source_enabled :: "config \<Rightarrow> string \<Rightarrow> error + bool" where
  "source_enabled cfg name =
     bind_err (case sources cfg of None \<Rightarrow> Inl KeyError | Some s \<Rightarrow> Inr s)
       (\<lambda>s. case s name of
               None \<Rightarrow> Inl KeyError
             | Some c \<Rightarrow> Inr (case enabled c of None \<Rightarrow> False | Some b \<Rightarrow> b))"

text \<open>\<open>DataCollector.collect_all_data\<close>: each fetch is wrapped in \<open>try\<close>/\<open>except Exception\<close>;
  reading the settings is not.\<close>

definition collect_all_data ::
  "data_collector \<Rightarrow> world \<Rightarrow> (error + (string \<times> item list) list) \<times> world" where
  "collect_all_data self w =
     (case run (dc_config self) of
        None \<Rightarrow> (Inl KeyError, w)
      | Some r \<Rightarrow>
          let max_items = (case max_items_per_source r of None \<Rightarrow> 20 | Some n \<Rightarrow> n) in
          (case source_enabled (dc_config self) ''youtube'' of
             Inl e \<Rightarrow> (Inl e, w)
           | Inr yt_on \<Rightarrow>
               let (results1, w1) =
                     (if yt_on
                      then (case fetch_youtube_videos (dc_youtube_fetcher self) max_items w of
                              (Inr vs, w') \<Rightarrow> (dict_set ''youtube'' (map Video vs) [], w')
                            | (Inl e, w') \<Rightarrow> (dict_set ''youtube'' [] [], w'))
                      else ([], w))
               in (case source_enabled (dc_config self) ''reddit'' of
                     Inl e \<Rightarrow> (Inl e, w1)
                   | Inr rd_on \<Rightarrow>
                       if rd_on
                       then (case fetch_reddit_posts (dc_reddit_fetcher self) max_items w1 of
                               (Inr ps, w') \<Rightarrow> (Inr (dict_set ''reddit'' (map Post ps) results1), w')
                             | (Inl e, w') \<Rightarrow> (Inr (dict_set ''reddit'' [] results1), w'))
                       else (Inr results1, w1))))"

text \<open>
  The text that \<open>json.dump(..., ensure_ascii=False)\<close> writes to a file opened with
  \<open>encoding="utf-8"\<close> holds every \<open>str\<close> of the snapshot; writing one with a lone
  surrogate raises \<open>UnicodeEncodeError\<close>.
\<close>

fun has_surrogate :: "string \<Rightarrow> bool" where
  "has_surrogate (a # b # cs) =
     (((of_char a :: nat) = 237 \<and> 160 \<le> (of_char b :: nat) \<and> (of_char b :: nat) \<le> 191) \<or>
      has_surrogate (b # cs))"
| "has_surrogate cs = False"

primrec json_encodable :: "json \<Rightarrow> bool" where
  "json_encodable JNull = True"
| "json_encodable (JBool b) = True"
| "json_encodable (JInt i) = True"
| "json_encodable (JFloat q) = True"
| "json_encodable (JStr s) = (\<not> has_surrogate s)"
| "json_encodable (JList xs) = list_all id (map json_encodable xs)"
| "json_encodable (JObj kvs) =
     list_all (\<lambda>kv. \<not> has_surrogate (fst kv) \<and> snd kv) (map (map_prod id json_encodable) kvs)"

text \<open>An f-string holds the \<open>str\<close> of the interpolated value: a \<open>str\<close> itself, and for
  every other value a text in which \<open>repr\<close> has escaped the surrogates.\<close>

fun fstring_encodable :: "fstring \<Rightarrow> bool" where
  "fstring_encodable (FString pre (JStr s)) = (\<not> has_surrogate pre \<and> \<not> has_surrogate s)"
| "fstring_encodable (FString pre v) = (\<not> has_surrogate pre)"

fun item_encodable :: "item \<Rightarrow> bool" where
  "item_encodable (Post p) =
     (json_encodable (p_id p) \<and> json_encodable (p_title p) \<and> json_encodable (p_selftext p) \<and>
      json_encodable (p_subreddit p) \<and> json_encodable (p_author p) \<and>
      json_encodable (p_score p) \<and> json_encodable (p_num_comments p) \<and>
      json_encodable (p_created_utc p) \<and> fstring_encodable (p_permalink p) \<and>
      \<not> has_surrogate (p_fetched_at p))"
| "item_encodable (Video v) =
     (json_encodable (v_videoId v) \<and> json_encodable (v_title v) \<and>
      json_encodable (v_description v) \<and> json_encodable (v_channelTitle v) \<and>
      json_encodable (v_publishedAt v) \<and> fstring_encodable (v_url v) \<and>
      \<not> has_surrogate (v_fetched_at v))"

definition snapshot_encodable :: "item snapshot \<Rightarrow> bool" where
  "snapshot_encodable snap =
     (\<not> has_surrogate (fetched_at (metadata snap)) \<and>
      list_all (\<lambda>kv. \<not> has_surrogate (fst kv) \<and> list_all item_encodable (snd kv)) (data snap))"

text \<open>\<open>DataCollector.save_json\<close>.  First the snapshot \<open>output_data\<close>, from the collection
  result and the value of \<open>datetime.now().isoformat()\<close>.\<close>

definition output_data :: "(string \<times> 'a list) list \<Rightarrow> string \<Rightarrow> 'a snapshot" where
  "output_data d now =
     \<lparr> metadata = \<lparr> total_items = sum_list (map (\<lambda>kv. length (snd kv)) d),
                    sources_count = map (\<lambda>kv. (fst kv, length (snd kv))) d,
                    fetched_at = now \<rparr>,
       data = d \<rparr>"

text \<open>Then the file name: when none is given (\<open>None\<close> or the empty string), the clock is
  read once more for it.\<close>

definition output_name :: "string option \<Rightarrow> world \<Rightarrow> string \<times> world" where
  "output_name filename w =
     (case filename of
        Some f \<Rightarrow> if f = [] then (strftime (fst (datetime_now w)) @ ''.json'', snd (datetime_now w))
                  else (f, w)
      | None \<Rightarrow> (strftime (fst (datetime_now w)) @ ''.json'', snd (datetime_now w)))"

text \<open>Then the write.  \<open>open\<close> may raise, and nothing is written.  Otherwise the file is
  created and \<open>json.dump\<close> writes the text piece by piece, \<open>metadata\<close> first; a piece that
  cannot be encoded raises, and the file keeps what was written before it.\<close>

definition save_json ::
  "data_collector \<Rightarrow> (string \<times> item list) list \<Rightarrow> string option \<Rightarrow> world \<Rightarrow>
   (error + string \<times> string) \<times> world" where
  "save_json self d filename w =
     (let (t1, w1) = datetime_now w;
          snap = output_data d (isoformat t1);
          (name, w2) = output_name filename w1;
          filepath = (dc_out_dir self, name)
      in case open_outcome w2 filepath of
           Some e \<Rightarrow> (Inl e, w2)
         | None \<Rightarrow>
             if snapshot_encodable snap
             then (Inr filepath, w2\<lparr>files := files w2 @ [(filepath, Snapshot snap)]\<rparr>)
             else (Inl UnicodeEncodeError, w2\<lparr>files := files w2 @ [(filepath, Incomplete)]\<rparr>))"

text \<open>\<open>main\<close>: every exception ends the run with exit code 1.\<close>

definition main :: "world \<Rightarrow> int \<times> world" where
  "main w =
     (case config_file w of
        None \<Rightarrow> (1, w)
      | Some cfg \<Rightarrow>
          (case DataCollector_init w of
             (Inl e, w1) \<Rightarrow> (1, w1)
           | (Inr collector, w1) \<Rightarrow>
               (case collect_all_data collector w1 of
                  (Inl e, w2) \<Rightarrow> (1, w2)
                | (Inr all_data, w2) \<Rightarrow>
                    if \<exists>kv \<in> set all_data. snd kv \<noteq> []
                    then (case save_json collector all_data None w2 of
                            (Inl e, w3) \<Rightarrow> (1, w3)
                          | (Inr output_file, w3) \<Rightarrow> (0, w3))
                    else (0, w2))))"

section \<open>Example inputs\<close>

text \<open>Concrete settings, responses and worlds, used to run the model.\<close>

definition example_clock :: "nat \<Rightarrow> instant" where
  "example_clock n = \<lparr> isoformat = ''2024-01-01T00:00:00'', strftime = ''2024-01-01_00-00-00'' \<rparr>"

definition example_world :: "http_outcome list \<Rightarrow> world" where
  "example_world outcomes =
     \<lparr> environ = Map.empty, config_file = None, script = outcomes, sent = [],
       clock = example_clock, ticks = 0, files = [], open_outcome = (\<lambda>path. None) \<rparr>"

definition example_config :: "bool \<Rightarrow> bool \<Rightarrow> string list \<Rightarrow> string list \<Rightarrow> config" where
  "example_config yt_on rd_on subs terms =
     \<lparr> run = Some \<lparr> out_dir = Some ''out'', max_items_per_source = Some 2 \<rparr>,
       sources = Some [''youtube'' \<mapsto> \<lparr> enabled = Some yt_on, subreddits = None,
                                        search_terms = Some terms \<rparr>,
                       ''reddit'' \<mapsto> \<lparr> enabled = Some rd_on, subreddits = Some subs,
                                       search_terms = None \<rparr>] \<rparr>"

definition example_reddit_fetcher :: "string list \<Rightarrow> reddit_fetcher" where
  "example_reddit_fetcher subs =
     \<lparr> rf_config = example_config True True subs [],
       reddit_config = \<lparr> enabled = Some True, subreddits = Some subs, search_terms = None \<rparr>,
       access_token = JStr ''token'' \<rparr>"

definition example_youtube_fetcher :: "string list \<Rightarrow> youtube_fetcher" where
  "example_youtube_fetcher terms =
     \<lparr> yf_config = example_config True True [] terms, api_key = ''key'' \<rparr>"

definition raw_post :: "string \<Rightarrow> int \<Rightarrow> json" where
  "raw_post i sc =
     JObj [(''data'', JObj [(''id'', JStr i), (''title'', JStr ''t''), (''subreddit'', JStr ''s''),
                            (''score'', JInt sc), (''created_utc'', JInt 0),
                            (''permalink'', JStr ''/p'')])]"

definition example_post :: "string \<Rightarrow> int \<Rightarrow> reddit_post" where
  "example_post i sc =
     \<lparr> p_id = JStr i, p_title = JStr ''t'', p_selftext = JStr [], p_subreddit = JStr ''s'',
       p_author = JStr ''[deleted]'', p_score = JInt sc, p_num_comments = JInt 0,
       p_created_utc = JInt 0, p_permalink = FString ''https://www.reddit.com'' (JStr ''/p''),
       p_fetched_at = ''2024-01-01T00:00:00'' \<rparr>"

definition hot_response :: "json list \<Rightarrow> http_outcome" where
  "hot_response posts = Response 200 (Some (JObj [(''data'', JObj [(''children'', JList posts)])]))"

definition raw_video :: "string \<Rightarrow> string \<Rightarrow> json" where
  "raw_video i published =
     JObj [(''id'', JObj [(''videoId'', JStr i)]),
           (''snippet'', JObj [(''title'', JStr ''t''), (''description'', JStr ''d''),
                               (''channelTitle'', JStr ''c''), (''publishedAt'', JStr published)])]"

definition example_video :: "string \<Rightarrow> string \<Rightarrow> youtube_video" where
  "example_video i published =
     \<lparr> v_videoId = JStr i, v_title = JStr ''t'', v_description = JStr ''d'',
       v_channelTitle = JStr ''c'', v_publishedAt = JStr published,
       v_url = FString ''https://www.youtube.com/watch?v='' (JStr i),
       v_fetched_at = ''2024-01-01T00:00:00'' \<rparr>"

definition search_response :: "json list \<Rightarrow> http_outcome" where
  "search_response items = Response 200 (Some (JObj [(''items'', JList items)]))"

definition example_collector :: "bool \<Rightarrow> bool \<Rightarrow> string list \<Rightarrow> string list \<Rightarrow> data_collector" where
  "example_collector yt_on rd_on subs terms =
     \<lparr> dc_config = example_config yt_on rd_on subs terms,
       dc_out_dir = ''out'',
       dc_youtube_fetcher = \<lparr> yf_config = example_config yt_on rd_on subs terms,
                              api_key = ''key'' \<rparr>,
       dc_reddit_fetcher =
         \<lparr> rf_config = example_config yt_on rd_on subs terms,
           reddit_config = \<lparr> enabled = Some rd_on, subreddits = Some subs, search_terms = None \<rparr>,
           access_token = JStr ''token'' \<rparr> \<rparr>"

section \<open>What a fetch reads from the world\<close>

text \<open>Two worlds with the same future: the same outcomes still to come and the same clock.\<close>

definition same_future :: "world \<Rightarrow> world \<Rightarrow> bool" where
  "same_future u w = (script u = script w \<and> clock u = clock w \<and> ticks u = ticks w)"

section \<open>The records a fetch builds before deduplication\<close>

text \<open>
  Stated from the specification, for comparison with the fetchers: the records built
  from the raw items of one response, in item order.  The items after one on which the
  extractor raises, or whose identity key is unhashable, are not reached.
\<close>

fun built_records ::
  "(string \<Rightarrow> json \<Rightarrow> error + 'r option) \<Rightarrow> ('r \<Rightarrow> json) \<Rightarrow> json list \<Rightarrow> world \<Rightarrow>
   'r list \<times> world" where
  "built_records extract ident [] w = ([], w)"
| "built_records extract ident (raw # raws) w =
     (case extract (isoformat (clock w (ticks w))) raw of
        Inl e \<Rightarrow> ([], w)
      | Inr None \<Rightarrow> built_records extract ident raws w
      | Inr (Some r) \<Rightarrow>
          (case scalar_key (ident r) of
             None \<Rightarrow> ([], snd (datetime_now w))
           | Some k \<Rightarrow>
               (case built_records extract ident raws (snd (datetime_now w)) of
                  (rs, w') \<Rightarrow> (r # rs, w'))))"

text \<open>The candidates of a whole fetch: the built records of every response, in
  query-target order, then item order.\<close>

fun subreddit_candidates :: "string list \<Rightarrow> world \<Rightarrow> reddit_post list" where
  "subreddit_candidates [] w = []"
| "subreddit_candidates (subreddit # rest) w =
     (case subreddit_posts subreddit w of
        (None, w1) \<Rightarrow> subreddit_candidates rest w1
      | (Some posts, w1) \<Rightarrow>
          (case built_records extract_post_data p_id posts w1 of
             (rs, w2) \<Rightarrow> rs @ subreddit_candidates rest w2))"

definition reddit_candidates :: "reddit_fetcher \<Rightarrow> world \<Rightarrow> reddit_post list" where
  "reddit_candidates self w =
     subreddit_candidates (case subreddits (reddit_config self) of None \<Rightarrow> [] | Some l \<Rightarrow> l) w"

fun term_candidates ::
  "youtube_fetcher \<Rightarrow> int \<Rightarrow> string list \<Rightarrow> string list \<Rightarrow> world \<Rightarrow> youtube_video list" where
  "term_candidates self max_items terms [] w = []"
| "term_candidates self max_items terms (term # rest) w =
     (case term_items self max_items terms term w of
        (None, w1) \<Rightarrow> term_candidates self max_items terms rest w1
      | (Some items, w1) \<Rightarrow>
          (case built_records extract_video_data v_videoId items w1 of
             (rs, w2) \<Rightarrow> rs @ term_candidates self max_items terms rest w2))"

definition youtube_candidates :: "youtube_fetcher \<Rightarrow> int \<Rightarrow> world \<Rightarrow> youtube_video list" where
  "youtube_candidates self max_items w =
     (case sources (yf_config self) of
        None \<Rightarrow> []
      | Some s \<Rightarrow>
          (case s ''youtube'' of
             None \<Rightarrow> []
           | Some c \<Rightarrow>
               (case search_terms c of
                  None \<Rightarrow> []
                | Some terms \<Rightarrow> term_candidates self max_items terms terms w)))"

text \<open>
  The accumulator \<open>acc\<close> with its seen set, against the candidates \<open>cands\<close> met so far:
  the seen set holds the keys of \<open>acc\<close>, these keys are distinct and are all the keys
  among the candidates, and each record of \<open>acc\<close> is the first candidate with its key.
\<close>

definition first_kept :: "('r \<Rightarrow> json) \<Rightarrow> 'r list \<Rightarrow> hkey set \<Rightarrow> 'r list \<Rightarrow> bool" where
  "first_kept ident acc seen cands =
     (Some ` seen = (\<lambda>r. scalar_key (ident r)) ` set acc \<and>
      distinct (map (\<lambda>r. scalar_key (ident r)) acc) \<and>
      (\<lambda>r. scalar_key (ident r)) ` set cands = (\<lambda>r. scalar_key (ident r)) ` set acc \<and>
      (\<forall>r \<in> set acc. find (\<lambda>c. scalar_key (ident c) = scalar_key (ident r)) cands = Some r))"

section \<open>The list a fetch sorts\<close>

text \<open>
  \<open>all_posts\<close> and \<open>all_videos\<close> as they stand when the loop over the query targets has
  ended and the sort begins: the kept records in the order in which they were appended.
\<close>

definition reddit_accumulated :: "reddit_fetcher \<Rightarrow> world \<Rightarrow> reddit_post list" where
  "reddit_accumulated self w =
     fst (fst (fetch_subreddits
       (case subreddits (reddit_config self) of None \<Rightarrow> [] | Some l \<Rightarrow> l) ([], {}) w))"

definition youtube_accumulated :: "youtube_fetcher \<Rightarrow> int \<Rightarrow> world \<Rightarrow> youtube_video list" where
  "youtube_accumulated self max_items w =
     (case sources (yf_config self) of
        None \<Rightarrow> []
      | Some s \<Rightarrow>
          (case s ''youtube'' of
             None \<Rightarrow> []
           | Some c \<Rightarrow>
               (case search_terms c of
                  None \<Rightarrow> []
                | Some terms \<Rightarrow> fst (fst (fetch_terms self max_items terms terms ([], {}) w)))))"

section \<open>The field extractors on well-nested and on ill-nested items\<close>

lemma py_getitem_not_obj: "(\<And>kvs. x \<noteq> JObj kvs) \<Longrightarrow> py_getitem x k = Inl TypeError"
  by (cases x) auto

lemma extract_post_data_obj:
  "extract_post_data now (JObj kvs) =
     (case map_of kvs ''data'' of
        None \<Rightarrow> Inr None
      | Some (JObj d) \<Rightarrow>
          (case (map_of d ''id'', map_of d ''title'', map_of d ''subreddit'',
                 map_of d ''created_utc'', map_of d ''permalink'') of
             (Some i, Some t, Some sr, Some cu, Some pl) \<Rightarrow>
               Inr (Some \<lparr> p_id = i, p_title = t,
                 p_selftext = (case map_of d ''selftext'' of Some v \<Rightarrow> v | None \<Rightarrow> JStr []),
                 p_subreddit = sr,
                 p_author = (case map_of d ''author'' of Some v \<Rightarrow> v | None \<Rightarrow> JStr ''[deleted]''),
                 p_score = (case map_of d ''score'' of Some v \<Rightarrow> v | None \<Rightarrow> JInt 0),
                 p_num_comments =
                   (case map_of d ''num_comments'' of Some v \<Rightarrow> v | None \<Rightarrow> JInt 0),
                 p_created_utc = cu,
                 p_permalink = FString ''https://www.reddit.com'' pl,
                 p_fetched_at = now \<rparr>)
           | _ \<Rightarrow> Inr None)
      | Some _ \<Rightarrow> Inl TypeError)"
  by (simp add: extract_post_data_def except_KeyError_def bind_err_def
        split: option.splits json.splits)

lemma extract_post_data_not_obj:
  "(\<And>kvs. x \<noteq> JObj kvs) \<Longrightarrow> extract_post_data now x = Inl TypeError"
  by (simp add: extract_post_data_def except_KeyError_def bind_err_def py_getitem_not_obj)

lemma extract_video_data_obj:
  "extract_video_data now (JObj kvs) =
     (case map_of kvs ''id'' of
        None \<Rightarrow> Inr None
      | Some (JObj idv) \<Rightarrow>
          (case map_of idv ''videoId'' of
             None \<Rightarrow> Inr None
           | Some vid \<Rightarrow>
              (case map_of kvs ''snippet'' of
                 None \<Rightarrow> Inr None
               | Some (JObj sn) \<Rightarrow>
                  (case (map_of sn ''title'', map_of sn ''description'',
                         map_of sn ''channelTitle'', map_of sn ''publishedAt'') of
                     (Some t, Some d, Some ct, Some pa) \<Rightarrow>
                        Inr (Some \<lparr> v_videoId = vid, v_title = t, v_description = d,
                           v_channelTitle = ct, v_publishedAt = pa,
                           v_url = FString ''https://www.youtube.com/watch?v='' vid,
                           v_fetched_at = now \<rparr>)
                   | _ \<Rightarrow> Inr None)
               | Some _ \<Rightarrow> Inl TypeError))
      | Some _ \<Rightarrow> Inl TypeError)"
  by (simp add: extract_video_data_def except_KeyError_def bind_err_def
        split: option.splits json.splits)

lemma extract_video_data_not_obj:
  "(\<And>kvs. x \<noteq> JObj kvs) \<Longrightarrow> extract_video_data now x = Inl TypeError"
  by (simp add: extract_video_data_def except_KeyError_def bind_err_def py_getitem_not_obj)

text \<open>
  C5, as stated, fails: an item whose \<open>data\<close> is \<open>null\<close> makes \<open>_extract_post_data\<close> raise
  \<open>TypeError\<close>, which \<open>except KeyError\<close> does not catch; the result is not the absent
  result.
\<close>

theorem extract_post_data_null_data_raises:
  "extract_post_data ''2024-01-01T00:00:00'' (JObj [(''data'', JNull)]) = Inl TypeError"
  by (simp add: extract_post_data_obj)

text \<open>
  C5, amended: the extractors catch only \<open>KeyError\<close>.  The only exception they raise is
  \<open>TypeError\<close>, and they raise it exactly when they subscript a value that is not an
  object: the item itself, or a container that is present (\<open>data\<close> for a post; \<open>id\<close>
  for a video, and \<open>snippet\<close> once \<open>id\<close> and its \<open>videoId\<close> have been read).  They return
  the absent result exactly when, before any such value is met, a container or a
  required field is missing from an object.  In every other case they return a record.
\<close>

theorem extractors_raise_exactly_on_non_object:
  "((extract_post_data now x = Inl e) =
      (e = TypeError \<and>
       ((\<forall>kvs. x \<noteq> JObj kvs) \<or>
        (\<exists>kvs v. x = JObj kvs \<and> map_of kvs ''data'' = Some v \<and> (\<forall>d. v \<noteq> JObj d))))) \<and>
   ((extract_post_data now x = Inr None) =
      (\<exists>kvs. x = JObj kvs \<and>
         (map_of kvs ''data'' = None \<or>
          (\<exists>d. map_of kvs ''data'' = Some (JObj d) \<and>
             (map_of d ''id'' = None \<or> map_of d ''title'' = None \<or>
              map_of d ''subreddit'' = None \<or> map_of d ''created_utc'' = None \<or>
              map_of d ''permalink'' = None))))) \<and>
   ((extract_video_data now x = Inl e) =
      (e = TypeError \<and>
       ((\<forall>kvs. x \<noteq> JObj kvs) \<or>
        (\<exists>kvs v. x = JObj kvs \<and> map_of kvs ''id'' = Some v \<and> (\<forall>d. v \<noteq> JObj d)) \<or>
        (\<exists>kvs idv vid v. x = JObj kvs \<and> map_of kvs ''id'' = Some (JObj idv) \<and>
           map_of idv ''videoId'' = Some vid \<and>
           map_of kvs ''snippet'' = Some v \<and> (\<forall>d. v \<noteq> JObj d))))) \<and>
   ((extract_video_data now x = Inr None) =
      (\<exists>kvs. x = JObj kvs \<and>
         (map_of kvs ''id'' = None \<or>
          (\<exists>idv. map_of kvs ''id'' = Some (JObj idv) \<and>
             (map_of idv ''videoId'' = None \<or> map_of kvs ''snippet'' = None \<or>
              (\<exists>sn. map_of kvs ''snippet'' = Some (JObj sn) \<and>
                 (map_of sn ''title'' = None \<or> map_of sn ''description'' = None \<or>
                  map_of sn ''channelTitle'' = None \<or> map_of sn ''publishedAt'' = None)))))))"
proof -
  have p1: "(extract_post_data now x = Inl e) =
      (e = TypeError \<and>
       ((\<forall>kvs. x \<noteq> JObj kvs) \<or>
        (\<exists>kvs v. x = JObj kvs \<and> map_of kvs ''data'' = Some v \<and> (\<forall>d. v \<noteq> JObj d))))"
    by (cases x)
       (auto simp: extract_post_data_obj extract_post_data_not_obj
             split: option.splits json.splits)
  have p2: "(extract_post_data now x = Inr None) =
      (\<exists>kvs. x = JObj kvs \<and>
         (map_of kvs ''data'' = None \<or>
          (\<exists>d. map_of kvs ''data'' = Some (JObj d) \<and>
             (map_of d ''id'' = None \<or> map_of d ''title'' = None \<or>
              map_of d ''subreddit'' = None \<or> map_of d ''created_utc'' = None \<or>
              map_of d ''permalink'' = None))))"
    by (cases x)
       (auto simp: extract_post_data_obj extract_post_data_not_obj
             split: option.splits json.splits)
  have v1: "(extract_video_data now x = Inl e) =
      (e = TypeError \<and>
       ((\<forall>kvs. x \<noteq> JObj kvs) \<or>
        (\<exists>kvs v. x = JObj kvs \<and> map_of kvs ''id'' = Some v \<and> (\<forall>d. v \<noteq> JObj d)) \<or>
        (\<exists>kvs idv vid v. x = JObj kvs \<and> map_of kvs ''id'' = Some (JObj idv) \<and>
           map_of idv ''videoId'' = Some vid \<and>
           map_of kvs ''snippet'' = Some v \<and> (\<forall>d. v \<noteq> JObj d))))"
    by (cases x)
       (auto simp: extract_video_data_obj extract_video_data_not_obj
             split: option.splits json.splits)
  have v2: "(extract_video_data now x = Inr None) =
      (\<exists>kvs. x = JObj kvs \<and>
         (map_of kvs ''id'' = None \<or>
          (\<exists>idv. map_of kvs ''id'' = Some (JObj idv) \<and>
             (map_of idv ''videoId'' = None \<or> map_of kvs ''snippet'' = None \<or>
              (\<exists>sn. map_of kvs ''snippet'' = Some (JObj sn) \<and>
                 (map_of sn ''title'' = None \<or> map_of sn ''description'' = None \<or>
                  map_of sn ''channelTitle'' = None \<or> map_of sn ''publishedAt'' = None))))))"
    by (cases x)
       (auto simp: extract_video_data_obj extract_video_data_not_obj
             split: option.splits json.splits)
  from p1 p2 v1 v2 show ?thesis by blast
qed

theorem extractors_raise_exactly_on_non_object_witness:
  "extract_post_data ''t'' (JStr ''abc'') = Inl TypeError \<and>
   extract_video_data ''t'' (JStr ''abc'') = Inl TypeError \<and>
   extract_post_data ''t'' (JObj [(''data'', JNull)]) = Inl TypeError \<and>
   extract_video_data ''t''
     (JObj [(''id'', JObj [(''videoId'', JStr ''v'')]), (''snippet'', JNull)]) = Inl TypeError \<and>
   extract_post_data ''t'' (JObj [(''data'', JObj [(''id'', JStr ''1'')])]) = Inr None \<and>
   extract_video_data ''t'' (JObj [(''id'', JObj []), (''snippet'', JNull)]) = Inr None"
proof -
  have 1: "extract_post_data ''t'' (JStr ''abc'') = Inl TypeError"
    using extractors_raise_exactly_on_non_object [of "''t''" "JStr ''abc''" TypeError]
    by simp
  have 2: "extract_video_data ''t'' (JStr ''abc'') = Inl TypeError"
    using extractors_raise_exactly_on_non_object [of "''t''" "JStr ''abc''" TypeError]
    by simp
  have 3: "extract_post_data ''t'' (JObj [(''data'', JNull)]) = Inl TypeError"
    using extractors_raise_exactly_on_non_object
            [of "''t''" "JObj [(''data'', JNull)]" TypeError]
    by simp
  have 4: "extract_video_data ''t''
     (JObj [(''id'', JObj [(''videoId'', JStr ''v'')]), (''snippet'', JNull)]) = Inl TypeError"
    using extractors_raise_exactly_on_non_object
            [of "''t''" "JObj [(''id'', JObj [(''videoId'', JStr ''v'')]), (''snippet'', JNull)]"
                TypeError]
    by simp
  have 5: "extract_post_data ''t'' (JObj [(''data'', JObj [(''id'', JStr ''1'')])]) = Inr None"
    using extractors_raise_exactly_on_non_object
            [of "''t''" "JObj [(''data'', JObj [(''id'', JStr ''1'')])]" TypeError]
    by simp
  have 6: "extract_video_data ''t'' (JObj [(''id'', JObj []), (''snippet'', JNull)]) = Inr None"
    using extractors_raise_exactly_on_non_object
            [of "''t''" "JObj [(''id'', JObj []), (''snippet'', JNull)]" TypeError]
    by simp
  from 1 2 3 4 5 6 show ?thesis by simp
qed

text \<open>
  C6, as stated, fails for \<open>_extract_video_data\<close>: a video item with its identity, title,
  channel and publish time but without the body text \<open>description\<close> gives the absent
  result, not a record with a default description.
\<close>

theorem extract_video_data_no_description_absent:
  "extract_video_data ''2024-01-01T00:00:00''
     (JObj [(''id'', JObj [(''videoId'', JStr ''v1'')]),
            (''snippet'', JObj [(''title'', JStr ''t''), (''channelTitle'', JStr ''c''),
                                (''publishedAt'', JStr ''2024-01-01T00:00:00Z'')])])
   = Inr None"
  by (simp add: extract_video_data_obj)

text \<open>
  C6, amended: \<open>_extract_post_data\<close>, given an item whose \<open>data\<close> object has \<open>id\<close>, \<open>title\<close>,
  \<open>subreddit\<close>, \<open>created_utc\<close> and \<open>permalink\<close>, produces a record in which a missing
  \<open>selftext\<close> is the empty string, a missing \<open>author\<close> is \<open>"[deleted]"\<close> and a missing
  \<open>score\<close> or \<open>num_comments\<close> is 0.  \<open>_extract_video_data\<close> has no optional field: given
  an item whose \<open>id\<close> and \<open>snippet\<close> are objects, it produces a record exactly when
  \<open>videoId\<close>, \<open>title\<close>, \<open>description\<close>, \<open>channelTitle\<close> and \<open>publishedAt\<close> are all
  present, and the absent result otherwise.
\<close>

theorem post_defaults_video_all_required:
  "(map_of kvs ''data'' = Some (JObj d) \<and> map_of d ''id'' = Some i \<and>
    map_of d ''title'' = Some t \<and> map_of d ''subreddit'' = Some sr \<and>
    map_of d ''created_utc'' = Some cu \<and> map_of d ''permalink'' = Some pl \<longrightarrow>
      extract_post_data now (JObj kvs) =
        Inr (Some \<lparr> p_id = i, p_title = t,
          p_selftext = (case map_of d ''selftext'' of Some v \<Rightarrow> v | None \<Rightarrow> JStr []),
          p_subreddit = sr,
          p_author = (case map_of d ''author'' of Some v \<Rightarrow> v | None \<Rightarrow> JStr ''[deleted]''),
          p_score = (case map_of d ''score'' of Some v \<Rightarrow> v | None \<Rightarrow> JInt 0),
          p_num_comments = (case map_of d ''num_comments'' of Some v \<Rightarrow> v | None \<Rightarrow> JInt 0),
          p_created_utc = cu,
          p_permalink = FString ''https://www.reddit.com'' pl,
          p_fetched_at = now \<rparr>)) \<and>
   (map_of ys ''id'' = Some (JObj idv) \<and> map_of ys ''snippet'' = Some (JObj sn) \<longrightarrow>
      (if map_of idv ''videoId'' \<noteq> None \<and> map_of sn ''title'' \<noteq> None \<and>
          map_of sn ''description'' \<noteq> None \<and> map_of sn ''channelTitle'' \<noteq> None \<and>
          map_of sn ''publishedAt'' \<noteq> None
       then \<exists>r. extract_video_data now (JObj ys) = Inr (Some r)
       else extract_video_data now (JObj ys) = Inr None))"
  by (auto simp: extract_post_data_obj extract_video_data_obj split: option.splits)

theorem post_defaults_video_all_required_witness:
  "extract_post_data ''t''
     (JObj [(''data'', JObj [(''id'', JStr ''p1''), (''title'', JStr ''T''),
                             (''subreddit'', JStr ''s''), (''created_utc'', JInt 7),
                             (''permalink'', JStr ''/r/s/p1'')])]) =
     Inr (Some \<lparr> p_id = JStr ''p1'', p_title = JStr ''T'', p_selftext = JStr [],
                 p_subreddit = JStr ''s'', p_author = JStr ''[deleted]'', p_score = JInt 0,
                 p_num_comments = JInt 0, p_created_utc = JInt 7,
                 p_permalink = FString ''https://www.reddit.com'' (JStr ''/r/s/p1''),
                 p_fetched_at = ''t'' \<rparr>) \<and>
   extract_video_data ''t''
     (JObj [(''id'', JObj [(''videoId'', JStr ''v1'')]),
            (''snippet'', JObj [(''title'', JStr ''T'')])]) = Inr None"
  using post_defaults_video_all_required
          [of "[(''data'', JObj [(''id'', JStr ''p1''), (''title'', JStr ''T''),
                                (''subreddit'', JStr ''s''), (''created_utc'', JInt 7),
                                (''permalink'', JStr ''/r/s/p1'')])]"
              "[(''id'', JStr ''p1''), (''title'', JStr ''T''), (''subreddit'', JStr ''s''),
                (''created_utc'', JInt 7), (''permalink'', JStr ''/r/s/p1'')]"
              "JStr ''p1''" "JStr ''T''" "JStr ''s''" "JInt 7" "JStr ''/r/s/p1''"
              "''t''"
              "[(''id'', JObj [(''videoId'', JStr ''v1'')]),
                (''snippet'', JObj [(''title'', JStr ''T'')])]"
              "[(''videoId'', JStr ''v1'')]" "[(''title'', JStr ''T'')]"]
  by simp

section \<open>What a fetch changes in the world\<close>

lemma http_request_frame:
  "http_request rq w = (r, w1) \<Longrightarrow>
     sent w1 = sent w @ [rq] \<and> ticks w1 = ticks w \<and> clock w1 = clock w \<and> files w1 = files w \<and>
     environ w1 = environ w \<and> config_file w1 = config_file w"
  by (auto simp: http_request_def split: list.splits)

lemma dedup_loop_frame:
  "dedup_loop ex ident raws st w = (e, st', w') \<Longrightarrow>
     sent w' = sent w \<and> script w' = script w \<and> clock w' = clock w \<and> files w' = files w \<and>
     environ w' = environ w \<and> config_file w' = config_file w"
proof (induction raws arbitrary: st w)
  case Nil
  then show ?case by simp
next
  case (Cons raw raws)
  obtain acc seen where st: "st = (acc, seen)" by (cases st)
  from Cons.prems show ?case
    unfolding st
    by (auto simp: datetime_now_def split: sum.splits option.splits if_splits
             dest!: Cons.IH)
qed

lemma subreddit_posts_frame:
  "subreddit_posts s w = (r, w1) \<Longrightarrow>
     sent w1 = sent w @ [HotRequest s 25] \<and> ticks w1 = ticks w \<and> clock w1 = clock w \<and>
     files w1 = files w \<and> environ w1 = environ w \<and> config_file w1 = config_file w"
  unfolding subreddit_posts_def
  by (auto split: prod.splits http_outcome.splits if_splits option.splits sum.splits
           dest!: http_request_frame)

lemma term_items_frame:
  "term_items self m terms t w = (r, w1) \<Longrightarrow>
     sent w1 = sent w @ [SearchRequest t (m div int (length terms)) (api_key self)] \<and>
     ticks w1 = ticks w \<and> clock w1 = clock w \<and>
     files w1 = files w \<and> environ w1 = environ w \<and> config_file w1 = config_file w"
  unfolding term_items_def
  by (auto split: prod.splits http_outcome.splits if_splits option.splits sum.splits
           dest!: http_request_frame)

lemma dedup_loop_frame_snd:
  assumes "snd (dedup_loop ex ident raws st w) = (st', w')"
  shows "sent w' = sent w \<and> script w' = script w \<and> clock w' = clock w \<and> files w' = files w \<and>
     environ w' = environ w \<and> config_file w' = config_file w"
proof -
  obtain e where "dedup_loop ex ident raws st w = (e, st', w')"
    using assms by (cases "dedup_loop ex ident raws st w") simp
  then show ?thesis by (rule dedup_loop_frame)
qed


lemma fetch_term_frame:
  assumes "fetch_term self m terms t st w = (st', w')"
  shows "sent w' = sent w @ [SearchRequest t (m div int (length terms)) (api_key self)] \<and>
     clock w' = clock w \<and> files w' = files w \<and> environ w' = environ w \<and>
     config_file w' = config_file w"
proof -
  obtain r w1 where ti: "term_items self m terms t w = (r, w1)"
    by (cases "term_items self m terms t w")
  note f1 = term_items_frame[OF ti]
  show ?thesis
  proof (cases r)
    case None
    with assms ti have "w' = w1" by (simp add: fetch_term_def)
    with f1 show ?thesis by simp
  next
    case (Some items)
    with assms ti have "snd (dedup_loop extract_video_data v_videoId items st w1) = (st', w')"
      by (simp add: fetch_term_def)
    from dedup_loop_frame_snd[OF this] f1 show ?thesis by simp
  qed
qed


lemma fetch_terms_frame:
  "fetch_terms self m terms ts st w = (st', w') \<Longrightarrow>
     sent w' = sent w @ map (\<lambda>t. SearchRequest t (m div int (length terms)) (api_key self)) ts \<and>
     clock w' = clock w \<and> files w' = files w \<and> environ w' = environ w \<and>
     config_file w' = config_file w"
proof (induction ts arbitrary: st w)
  case Nil
  then show ?case by simp
next
  case (Cons t ts)
  obtain st1 w1 where step: "fetch_term self m terms t st w = (st1, w1)"
    by (cases "fetch_term self m terms t st w")
  with Cons.prems have rest: "fetch_terms self m terms ts st1 w1 = (st', w')" by simp
  from fetch_term_frame[OF step] Cons.IH[OF rest] show ?case by simp
qed

lemma fetch_subreddit_frame:
  assumes "fetch_subreddit s st w = (st', w')"
  shows "sent w' = sent w @ [HotRequest s 25] \<and>
     clock w' = clock w \<and> files w' = files w \<and> environ w' = environ w \<and>
     config_file w' = config_file w"
proof -
  obtain r w1 where sp: "subreddit_posts s w = (r, w1)"
    by (cases "subreddit_posts s w")
  note f1 = subreddit_posts_frame[OF sp]
  show ?thesis
  proof (cases r)
    case None
    with assms sp have "w' = w1" by (simp add: fetch_subreddit_def)
    with f1 show ?thesis by simp
  next
    case (Some posts)
    with assms sp have "snd (dedup_loop extract_post_data p_id posts st w1) = (st', w')"
      by (simp add: fetch_subreddit_def)
    from dedup_loop_frame_snd[OF this] f1 show ?thesis by simp
  qed
qed

lemma fetch_subreddits_frame:
  "fetch_subreddits subs st w = (st', w') \<Longrightarrow>
     sent w' = sent w @ map (\<lambda>s. HotRequest s 25) subs \<and>
     clock w' = clock w \<and> files w' = files w \<and> environ w' = environ w \<and>
     config_file w' = config_file w"
proof (induction subs arbitrary: st w)
  case Nil
  then show ?case by simp
next
  case (Cons s subs)
  obtain st1 w1 where step: "fetch_subreddit s st w = (st1, w1)"
    by (cases "fetch_subreddit s st w")
  with Cons.prems have rest: "fetch_subreddits subs st1 w1 = (st', w')" by simp
  from fetch_subreddit_frame[OF step] Cons.IH[OF rest] show ?case by simp
qed

section \<open>The per-query cap and the length bound\<close>

text \<open>
  C9: when the YouTube source is enabled with a non-empty list of \<open>n\<close> search terms,
  \<open>fetch_youtube_videos\<close> sends exactly one search request for each term, in order, and
  every one of them carries the cap \<open>max_items // n\<close> (floor division).
\<close>

theorem youtube_request_cap:
  assumes "sources (yf_config self) = Some s" and "s ''youtube'' = Some c"
    and "enabled c = Some True" and "search_terms c = Some terms" and "terms \<noteq> []"
  shows "sent (snd (fetch_youtube_videos self max_items w)) =
           sent w @ map (\<lambda>term. SearchRequest term (max_items div int (length terms)) (api_key self))
                      terms"
proof -
  obtain st' w' where run: "fetch_terms self max_items terms terms ([], {}) w = (st', w')"
    by (cases "fetch_terms self max_items terms terms ([], {}) w")
  obtain acc seen where st': "st' = (acc, seen)" by (cases st')
  obtain t ts where terms: "terms = t # ts" using assms(5) by (cases terms) auto
  have "snd (fetch_youtube_videos self max_items w) = w'"
    using assms(1-4) run[unfolded terms st'] unfolding terms
    by (simp add: fetch_youtube_videos_def bind_err_def split: sum.splits)
  with fetch_terms_frame[OF run] show ?thesis by simp
qed

theorem youtube_request_cap_witness:
  "sent (snd (fetch_youtube_videos (example_youtube_fetcher [''a'', ''b'', ''c'']) 10
            (example_world [search_response [raw_video ''v1'' ''2024-01-02'']]))) =
     [SearchRequest ''a'' 3 ''key'', SearchRequest ''b'' 3 ''key'', SearchRequest ''c'' 3 ''key'']"
proof -
  let ?c = "\<lparr> enabled = Some True, subreddits = None,
               search_terms = Some [''a'', ''b'', ''c''] \<rparr>"
  let ?s = "[''youtube'' \<mapsto> ?c,
             ''reddit'' \<mapsto> \<lparr> enabled = Some True, subreddits = Some [],
                              search_terms = None \<rparr>]"
  have h1: "sources (yf_config (example_youtube_fetcher [''a'', ''b'', ''c''])) = Some ?s"
    by (simp add: example_youtube_fetcher_def example_config_def)
  have h2: "?s ''youtube'' = Some ?c" by simp
  have h3: "enabled ?c = Some True" by simp
  have h4: "search_terms ?c = Some [''a'', ''b'', ''c'']" by simp
  have h5: "[''a'', ''b'', ''c''] \<noteq> ([] :: string list)" by simp
  show ?thesis
    using youtube_request_cap[OF h1 h2 h3 h4 h5, of 10
            "example_world [search_response [raw_video ''v1'' ''2024-01-02'']]"]
    by (simp add: example_world_def example_youtube_fetcher_def)
qed

lemma length_py_slice_to: "0 \<le> n \<Longrightarrow> int (length (py_slice_to n xs)) \<le> n"
  by (simp add: py_slice_to_def)

lemma fetch_reddit_posts_Inr:
  assumes "fst (fetch_reddit_posts rf n w) = Inr ps"
  shows "ps = [] \<or> (\<exists>sorted_results.
           sort_reverse p_score
             (fst (fst (fetch_subreddits
                (case subreddits (reddit_config rf) of None \<Rightarrow> [] | Some l \<Rightarrow> l) ([], {}) w)))
             = Inr sorted_results \<and>
           ps = py_slice_to n sorted_results)"
proof (cases "\<not> (case enabled (reddit_config rf) of None \<Rightarrow> False | Some b \<Rightarrow> b)")
  case True
  with assms show ?thesis by (simp add: fetch_reddit_posts_def)
next
  case on: False
  let ?subs = "case subreddits (reddit_config rf) of None \<Rightarrow> [] | Some l \<Rightarrow> l"
  show ?thesis
  proof (cases ?subs)
    case Nil
    with assms on show ?thesis by (simp add: fetch_reddit_posts_def)
  next
    case (Cons s ss)
    obtain acc seen w' where run: "fetch_subreddits ?subs ([], {}) w = ((acc, seen), w')"
      by (cases "fetch_subreddits ?subs ([], {}) w") auto
    show ?thesis
    proof (cases "sort_reverse p_score acc")
      case (Inl e)
      with assms on Cons run show ?thesis by (simp add: fetch_reddit_posts_def)
    next
      case (Inr sorted_results)
      with assms on Cons run show ?thesis by (simp add: fetch_reddit_posts_def)
    qed
  qed
qed

lemma fetch_youtube_videos_Inr:
  assumes "fst (fetch_youtube_videos yf n w) = Inr vs"
  shows "vs = [] \<or> (\<exists>s c terms sorted_results.
           sources (yf_config yf) = Some s \<and> s ''youtube'' = Some c \<and>
           search_terms c = Some terms \<and>
           sort_reverse v_publishedAt (fst (fst (fetch_terms yf n terms terms ([], {}) w)))
             = Inr sorted_results \<and>
           vs = py_slice_to n sorted_results)"
proof (cases "sources (yf_config yf)")
  case None
  with assms show ?thesis by (simp add: fetch_youtube_videos_def bind_err_def)
next
  case (Some s)
  note s = this
  show ?thesis
  proof (cases "s ''youtube''")
    case None
    with assms s show ?thesis by (simp add: fetch_youtube_videos_def bind_err_def)
  next
    case (Some c)
    note c = this
    show ?thesis
    proof (cases "\<not> (case enabled c of None \<Rightarrow> False | Some b \<Rightarrow> b)")
      case True
      with assms s c show ?thesis by (simp add: fetch_youtube_videos_def bind_err_def)
    next
      case on: False
      show ?thesis
      proof (cases "search_terms c")
        case None
        with assms s c on show ?thesis by (simp add: fetch_youtube_videos_def bind_err_def)
      next
        case (Some terms)
        note terms = this
        show ?thesis
        proof (cases terms)
          case Nil
          with assms s c on terms show ?thesis
            by (simp add: fetch_youtube_videos_def bind_err_def)
        next
          case (Cons t ts)
          obtain acc seen w' where run: "fetch_terms yf n terms terms ([], {}) w = ((acc, seen), w')"
            by (cases "fetch_terms yf n terms terms ([], {}) w") auto
          show ?thesis
          proof (cases "sort_reverse v_publishedAt acc")
            case (Inl e)
            with assms s c on terms Cons run show ?thesis
              by (simp add: fetch_youtube_videos_def bind_err_def)
          next
            case (Inr sorted_results)
            with assms s c on terms Cons run show ?thesis
              by (simp add: fetch_youtube_videos_def bind_err_def)
          qed
        qed
      qed
    qed
  qed
qed

text \<open>
  C2: for \<open>max_items \<ge> 0\<close>, a list returned by \<open>fetch_reddit_posts\<close> or by
  \<open>fetch_youtube_videos\<close> has at most \<open>max_items\<close> elements, whatever the responses.
\<close>

theorem fetch_length_bound:
  assumes "0 \<le> max_items"
  shows "(\<forall>ps. fst (fetch_reddit_posts rf max_items w) = Inr ps \<longrightarrow>
              int (length ps) \<le> max_items) \<and>
         (\<forall>vs. fst (fetch_youtube_videos yf max_items w') = Inr vs \<longrightarrow>
              int (length vs) \<le> max_items)"
proof (intro conjI allI impI)
  fix ps
  assume "fst (fetch_reddit_posts rf max_items w) = Inr ps"
  from fetch_reddit_posts_Inr[OF this] assms show "int (length ps) \<le> max_items"
    by (auto simp: length_py_slice_to)
next
  fix vs
  assume "fst (fetch_youtube_videos yf max_items w') = Inr vs"
  from fetch_youtube_videos_Inr[OF this] assms show "int (length vs) \<le> max_items"
    by (auto simp: length_py_slice_to)
qed

theorem fetch_length_bound_witness:
  "(0::int) \<le> 2 \<and>
   fst (fetch_reddit_posts (example_reddit_fetcher [''a'', ''b'']) 2
     (example_world [hot_response [raw_post ''1'' 5, raw_post ''2'' 9],
                     hot_response [raw_post ''2'' 9, raw_post ''3'' 1]]))
     = Inr [example_post ''2'' 9, example_post ''1'' 5] \<and>
   int (length [example_post ''2'' 9, example_post ''1'' 5]) \<le> 2 \<and>
   fst (fetch_youtube_videos (example_youtube_fetcher [''x'']) 2
     (example_world [search_response [raw_video ''v1'' ''2024-01-02'',
                                      raw_video ''v2'' ''2024-01-03'',
                                      raw_video ''v3'' ''2024-01-01'']]))
     = Inr [example_video ''v2'' ''2024-01-03'', example_video ''v1'' ''2024-01-02''] \<and>
   int (length [example_video ''v2'' ''2024-01-03'', example_video ''v1'' ''2024-01-02'']) \<le> 2"
proof -
  have r: "fst (fetch_reddit_posts (example_reddit_fetcher [''a'', ''b'']) 2
     (example_world [hot_response [raw_post ''1'' 5, raw_post ''2'' 9],
                     hot_response [raw_post ''2'' 9, raw_post ''3'' 1]]))
     = Inr [example_post ''2'' 9, example_post ''1'' 5]"
    by code_simp
  have y: "fst (fetch_youtube_videos (example_youtube_fetcher [''x'']) 2
     (example_world [search_response [raw_video ''v1'' ''2024-01-02'',
                                      raw_video ''v2'' ''2024-01-03'',
                                      raw_video ''v3'' ''2024-01-01'']]))
     = Inr [example_video ''v2'' ''2024-01-03'', example_video ''v1'' ''2024-01-02'']"
    by code_simp
  have le: "(0::int) \<le> 2" by simp
  from fetch_length_bound[OF le, of "example_reddit_fetcher [''a'', ''b'']"
         "example_world [hot_response [raw_post ''1'' 5, raw_post ''2'' 9],
                         hot_response [raw_post ''2'' 9, raw_post ''3'' 1]]"
         "example_youtube_fetcher [''x'']"
         "example_world [search_response [raw_video ''v1'' ''2024-01-02'',
                                          raw_video ''v2'' ''2024-01-03'',
                                          raw_video ''v3'' ''2024-01-01'']]"]
  show ?thesis using r y by simp
qed

section \<open>Snapshot assembly\<close>






section \<open>The collection result\<close>

text \<open>
  C7: when \<open>collect_all_data\<close> returns, the keys of the result are exactly the enabled
  sources (YouTube first, then Reddit), a disabled source has no entry, and the entry
  of an enabled source is what its fetch returned, or the empty sequence when the fetch
  raised.  The Reddit fetch runs in the world the YouTube step left.
\<close>

theorem collect_all_data_entries:
  assumes "fst (collect_all_data self w) = Inr results"
  shows "\<exists>r. run (dc_config self) = Some r \<and>
     map fst results =
       filter (\<lambda>name. source_enabled (dc_config self) name = Inr True) [''youtube'', ''reddit''] \<and>
     (source_enabled (dc_config self) ''youtube'' = Inr True \<longrightarrow>
        map_of results ''youtube'' =
          Some (case fst (fetch_youtube_videos (dc_youtube_fetcher self)
                       (case max_items_per_source r of None \<Rightarrow> 20 | Some n \<Rightarrow> n) w) of
                  Inl e \<Rightarrow> [] | Inr vs \<Rightarrow> map Video vs)) \<and>
     (source_enabled (dc_config self) ''reddit'' = Inr True \<longrightarrow>
        map_of results ''reddit'' =
          Some (case fst (fetch_reddit_posts (dc_reddit_fetcher self)
                       (case max_items_per_source r of None \<Rightarrow> 20 | Some n \<Rightarrow> n)
                       (if source_enabled (dc_config self) ''youtube'' = Inr True
                        then snd (fetch_youtube_videos (dc_youtube_fetcher self)
                               (case max_items_per_source r of None \<Rightarrow> 20 | Some n \<Rightarrow> n) w)
                        else w)) of
                  Inl e \<Rightarrow> [] | Inr ps \<Rightarrow> map Post ps))"
proof -
  obtain r where r: "run (dc_config self) = Some r"
    using assms by (cases "run (dc_config self)") (auto simp: collect_all_data_def)
  obtain yt where yt: "source_enabled (dc_config self) ''youtube'' = Inr yt"
    using assms r by (cases "source_enabled (dc_config self) ''youtube''")
      (auto simp: collect_all_data_def)
  obtain rd where rd: "source_enabled (dc_config self) ''reddit'' = Inr rd"
    using assms r yt by (cases "source_enabled (dc_config self) ''reddit''")
      (auto simp: collect_all_data_def Let_def split: prod.splits if_splits sum.splits)
  let ?m = "case max_items_per_source r of None \<Rightarrow> 20 | Some n \<Rightarrow> n"
  obtain yres w1 where yf: "fetch_youtube_videos (dc_youtube_fetcher self) ?m w = (yres, w1)"
    by (cases "fetch_youtube_videos (dc_youtube_fetcher self) ?m w")
  obtain rres w2 where rf:
    "fetch_reddit_posts (dc_reddit_fetcher self) ?m (if yt then w1 else w) = (rres, w2)"
    by (cases "fetch_reddit_posts (dc_reddit_fetcher self) ?m (if yt then w1 else w)")
  have "results =
      (if yt then [(''youtube'', case yres of Inl e \<Rightarrow> [] | Inr vs \<Rightarrow> map Video vs)] else []) @
      (if rd then [(''reddit'', case rres of Inl e \<Rightarrow> [] | Inr ps \<Rightarrow> map Post ps)] else [])"
    using assms r yt rd yf rf
    by (cases yt; cases rd; cases yres; cases rres)
       (simp_all add: collect_all_data_def Let_def dict_set_def)
  with r yt rd yf rf show ?thesis
    by (cases yt; cases rd) simp_all
qed

theorem collect_all_data_entries_witness:
  "fst (collect_all_data (example_collector False True [''a''] [''x''])
        (example_world [hot_response [raw_post ''1'' 5,
           JObj [(''data'', JObj [(''id'', JStr ''2''), (''title'', JStr ''t''),
                  (''subreddit'', JStr ''s''), (''score'', JStr ''high''),
                  (''created_utc'', JInt 0), (''permalink'', JStr ''/p'')])]]]))
     = Inr [(''reddit'', [])] \<and>
   source_enabled (dc_config (example_collector False True [''a''] [''x''])) ''youtube'' = Inr False \<and>
   source_enabled (dc_config (example_collector False True [''a''] [''x''])) ''reddit'' = Inr True \<and>
   fst (fetch_reddit_posts (dc_reddit_fetcher (example_collector False True [''a''] [''x''])) 2
        (example_world [hot_response [raw_post ''1'' 5,
           JObj [(''data'', JObj [(''id'', JStr ''2''), (''title'', JStr ''t''),
                  (''subreddit'', JStr ''s''), (''score'', JStr ''high''),
                  (''created_utc'', JInt 0), (''permalink'', JStr ''/p'')])]]]))
     = Inl TypeError \<and>
   map_of [(''reddit'', ([] :: item list))] ''reddit'' = Some [] \<and>
   map_of [(''reddit'', ([] :: item list))] ''youtube'' = None"
proof -
  let ?C = "example_collector False True [''a''] [''x'']"
  let ?W = "example_world [hot_response [raw_post ''1'' 5,
           JObj [(''data'', JObj [(''id'', JStr ''2''), (''title'', JStr ''t''),
                  (''subreddit'', JStr ''s''), (''score'', JStr ''high''),
                  (''created_utc'', JInt 0), (''permalink'', JStr ''/p'')])]]]"
  have ev: "fst (collect_all_data ?C ?W) = Inr [(''reddit'', [])]"
    by code_simp
  have yt: "source_enabled (dc_config ?C) ''youtube'' = Inr False"
    by (simp add: example_collector_def example_config_def source_enabled_def bind_err_def)
  have rd: "source_enabled (dc_config ?C) ''reddit'' = Inr True"
    by (simp add: example_collector_def example_config_def source_enabled_def bind_err_def)
  have fr: "fst (fetch_reddit_posts (dc_reddit_fetcher ?C) 2 ?W) = Inl TypeError"
    by code_simp
  from collect_all_data_entries[OF ev] yt rd fr ev show ?thesis
    by simp
qed

section \<open>Construction of the fetchers and the run\<close>

lemma YouTubeFetcher_init_fail:
  "environ w ''YOUTUBE_API_KEY'' \<in> {None, Some []} \<Longrightarrow> YouTubeFetcher_init cfg w = Inl ValueError"
  by (auto simp: YouTubeFetcher_init_def)

lemma RedditFetcher_init_frame:
  assumes "RedditFetcher_init cfg w = (r, w1)"
  shows "files w1 = files w \<and>
         (sent w1 = sent w \<or> (\<exists>a b. sent w1 = sent w @ [TokenRequest a b]))"
proof (cases "bind_err (case sources cfg of None \<Rightarrow> Inl KeyError | Some s \<Rightarrow> Inr s)
             (\<lambda>s. case s ''reddit'' of None \<Rightarrow> Inl KeyError | Some c \<Rightarrow> Inr c)")
  case (Inl e)
  with assms show ?thesis by (simp add: RedditFetcher_init_def)
next
  case (Inr rc)
  show ?thesis
  proof (cases "environ w ''REDDIT_CLIENT_ID''")
    case None
    with assms Inr show ?thesis by (simp add: RedditFetcher_init_def)
  next
    case (Some client_id)
    note cid = this
    show ?thesis
    proof (cases "environ w ''REDDIT_CLIENT_SECRET''")
      case None
      with assms Inr cid show ?thesis by (simp add: RedditFetcher_init_def)
    next
      case (Some client_secret)
      note sec = this
      obtain out w2 where rq: "http_request (TokenRequest client_id client_secret) w = (out, w2)"
        by (cases "http_request (TokenRequest client_id client_secret) w")
      note fr = http_request_frame[OF rq]
      from assms Inr cid sec rq have "w1 = w \<or> w1 = w2"
        by (auto simp: RedditFetcher_init_def
              split: if_splits http_outcome.splits option.splits sum.splits)
      with fr show ?thesis by auto
    qed
  qed
qed

lemma RedditFetcher_init_fail_credentials:
  assumes "environ w ''REDDIT_CLIENT_ID'' \<in> {None, Some []} \<or>
           environ w ''REDDIT_CLIENT_SECRET'' \<in> {None, Some []}"
  shows "\<exists>e. RedditFetcher_init cfg w = (Inl e, w)"
proof (cases "bind_err (case sources cfg of None \<Rightarrow> Inl KeyError | Some s \<Rightarrow> Inr s)
             (\<lambda>s. case s ''reddit'' of None \<Rightarrow> Inl KeyError | Some c \<Rightarrow> Inr c)")
  case (Inl e)
  then show ?thesis by (simp add: RedditFetcher_init_def)
next
  case (Inr rc)
  with assms show ?thesis
    by (auto simp: RedditFetcher_init_def split: option.splits)
qed

lemma RedditFetcher_init_fail_token:
  assumes "script w = Response status body # rest" and "status \<noteq> 200"
  shows "\<exists>e. fst (RedditFetcher_init cfg w) = Inl e"
proof (cases "bind_err (case sources cfg of None \<Rightarrow> Inl KeyError | Some s \<Rightarrow> Inr s)
             (\<lambda>s. case s ''reddit'' of None \<Rightarrow> Inl KeyError | Some c \<Rightarrow> Inr c)")
  case (Inl e)
  then show ?thesis by (simp add: RedditFetcher_init_def)
next
  case (Inr rc)
  with assms show ?thesis
    by (auto simp: RedditFetcher_init_def http_request_def split: option.splits)
qed

lemma DataCollector_init_frame:
  assumes "DataCollector_init w = (r, w1)"
  shows "files w1 = files w \<and>
         (sent w1 = sent w \<or> (\<exists>a b. sent w1 = sent w @ [TokenRequest a b]))"
proof (cases "config_file w")
  case None
  with assms show ?thesis by (simp add: DataCollector_init_def)
next
  case (Some cfg)
  obtain rr w2 where ri: "RedditFetcher_init cfg w = (rr, w2)"
    by (cases "RedditFetcher_init cfg w")
  from assms Some ri have "w1 = w \<or> w1 = w2"
    by (auto simp: DataCollector_init_def split: sum.splits)
  with RedditFetcher_init_frame[OF ri] show ?thesis by auto
qed

lemma DataCollector_init_fails:
  assumes "config_file w = Some cfg"
    and "(\<exists>e. YouTubeFetcher_init cfg w = Inl e) \<or> (\<exists>e. fst (RedditFetcher_init cfg w) = Inl e)"
  shows "\<exists>e. fst (DataCollector_init w) = Inl e"
proof -
  obtain rr w2 where ri: "RedditFetcher_init cfg w = (rr, w2)"
    by (cases "RedditFetcher_init cfg w")
  with assms show ?thesis
    by (auto simp: DataCollector_init_def split: sum.splits)
qed

lemma main_init_fails:
  assumes "config_file w = None \<or> (\<exists>e. fst (DataCollector_init w) = Inl e)"
  shows "main w = (1, snd (DataCollector_init w))"
proof (cases "config_file w")
  case None
  then show ?thesis by (simp add: main_def DataCollector_init_def)
next
  case (Some cfg)
  with assms obtain e where "fst (DataCollector_init w) = Inl e" by auto
  then obtain w1 where "DataCollector_init w = (Inl e, w1)"
    by (cases "DataCollector_init w") auto
  with Some show ?thesis by (simp add: main_def)
qed

text \<open>
  C4, as stated, fails: with the YouTube key set, both sources enabled and the Reddit
  credentials missing, the run does not continue with YouTube.  \<open>main\<close> returns 1 without
  sending any request and without writing a snapshot, although a YouTube response with
  one video is waiting.  With the credentials set and the token granted, the same
  settings give exit code 0, three requests and one snapshot.
\<close>

theorem missing_reddit_credentials_abort_run:
  "fst (main ((example_world [search_response [raw_video ''v1'' ''2024-01-02'']])
          \<lparr>environ := [''YOUTUBE_API_KEY'' \<mapsto> ''key''],
           config_file := Some (example_config True True [''a''] [''x''])\<rparr>)) = 1 \<and>
   sent (snd (main ((example_world [search_response [raw_video ''v1'' ''2024-01-02'']])
          \<lparr>environ := [''YOUTUBE_API_KEY'' \<mapsto> ''key''],
           config_file := Some (example_config True True [''a''] [''x''])\<rparr>))) = [] \<and>
   files (snd (main ((example_world [search_response [raw_video ''v1'' ''2024-01-02'']])
          \<lparr>environ := [''YOUTUBE_API_KEY'' \<mapsto> ''key''],
           config_file := Some (example_config True True [''a''] [''x''])\<rparr>))) = [] \<and>
   fst (main ((example_world [Response 200 (Some (JObj [(''access_token'', JStr ''tok'')])),
                              search_response [raw_video ''v1'' ''2024-01-02''],
                              hot_response [raw_post ''1'' 5]])
          \<lparr>environ := [''YOUTUBE_API_KEY'' \<mapsto> ''key'', ''REDDIT_CLIENT_ID'' \<mapsto> ''id'',
                       ''REDDIT_CLIENT_SECRET'' \<mapsto> ''secret''],
           config_file := Some (example_config True True [''a''] [''x''])\<rparr>)) = 0 \<and>
   length (sent (snd (main ((example_world
                             [Response 200 (Some (JObj [(''access_token'', JStr ''tok'')])),
                              search_response [raw_video ''v1'' ''2024-01-02''],
                              hot_response [raw_post ''1'' 5]])
          \<lparr>environ := [''YOUTUBE_API_KEY'' \<mapsto> ''key'', ''REDDIT_CLIENT_ID'' \<mapsto> ''id'',
                       ''REDDIT_CLIENT_SECRET'' \<mapsto> ''secret''],
           config_file := Some (example_config True True [''a''] [''x''])\<rparr>)))) = 3 \<and>
   length (files (snd (main ((example_world
                             [Response 200 (Some (JObj [(''access_token'', JStr ''tok'')])),
                              search_response [raw_video ''v1'' ''2024-01-02''],
                              hot_response [raw_post ''1'' 5]])
          \<lparr>environ := [''YOUTUBE_API_KEY'' \<mapsto> ''key'', ''REDDIT_CLIENT_ID'' \<mapsto> ''id'',
                       ''REDDIT_CLIENT_SECRET'' \<mapsto> ''secret''],
           config_file := Some (example_config True True [''a''] [''x''])\<rparr>)))) = 1"
  by code_simp

text \<open>
  C4, amended: a construction-time authentication failure of either fetcher (the YouTube
  key unset or empty, a Reddit credential unset or empty, or a token exchange answered
  with a status other than 200) is fatal for the whole run: \<open>main\<close> returns exit code 1,
  no snapshot is written, and no request other than the token request is sent, so
  neither source is fetched.
\<close>

theorem construction_failure_aborts_run:
  assumes "environ w ''YOUTUBE_API_KEY'' \<in> {None, Some []} \<or>
           environ w ''REDDIT_CLIENT_ID'' \<in> {None, Some []} \<or>
           environ w ''REDDIT_CLIENT_SECRET'' \<in> {None, Some []} \<or>
           (\<exists>status body rest. script w = Response status body # rest \<and> status \<noteq> 200)"
  shows "fst (main w) = 1 \<and> files (snd (main w)) = files w \<and>
         (\<forall>rq \<in> set (sent (snd (main w))). rq \<in> set (sent w) \<or> (\<exists>a b. rq = TokenRequest a b))"
proof -
  have m: "main w = (1, snd (DataCollector_init w))"
  proof (cases "config_file w")
    case None
    then show ?thesis by (simp add: main_init_fails)
  next
    case (Some cfg)
    have "(\<exists>e. YouTubeFetcher_init cfg w = Inl e) \<or> (\<exists>e. fst (RedditFetcher_init cfg w) = Inl e)"
      using assms
    proof (elim disjE exE conjE)
      assume "environ w ''YOUTUBE_API_KEY'' \<in> {None, Some []}"
      then show ?thesis by (simp add: YouTubeFetcher_init_fail)
    next
      assume "environ w ''REDDIT_CLIENT_ID'' \<in> {None, Some []}"
      then have "\<exists>e. RedditFetcher_init cfg w = (Inl e, w)"
        by (intro RedditFetcher_init_fail_credentials) simp
      then show ?thesis by auto
    next
      assume "environ w ''REDDIT_CLIENT_SECRET'' \<in> {None, Some []}"
      then have "\<exists>e. RedditFetcher_init cfg w = (Inl e, w)"
        by (intro RedditFetcher_init_fail_credentials) simp
      then show ?thesis by auto
    next
      fix status body rest
      assume "script w = Response status body # rest" "status \<noteq> 200"
      then show ?thesis using RedditFetcher_init_fail_token by blast
    qed
    from DataCollector_init_fails[OF Some this] show ?thesis
      by (intro main_init_fails) simp
  qed
  obtain r w1 where i: "DataCollector_init w = (r, w1)" by (cases "DataCollector_init w")
  from DataCollector_init_frame[OF i] m i show ?thesis by auto
qed

theorem construction_failure_aborts_run_witness:
  "environ ((example_world [search_response [raw_video ''v1'' ''2024-01-02'']])
          \<lparr>environ := [''YOUTUBE_API_KEY'' \<mapsto> ''key''],
           config_file := Some (example_config True True [''a''] [''x''])\<rparr>)
     ''REDDIT_CLIENT_ID'' = None \<and>
   fst (main ((example_world [search_response [raw_video ''v1'' ''2024-01-02'']])
          \<lparr>environ := [''YOUTUBE_API_KEY'' \<mapsto> ''key''],
           config_file := Some (example_config True True [''a''] [''x''])\<rparr>)) = 1 \<and>
   files (snd (main ((example_world [search_response [raw_video ''v1'' ''2024-01-02'']])
          \<lparr>environ := [''YOUTUBE_API_KEY'' \<mapsto> ''key''],
           config_file := Some (example_config True True [''a''] [''x''])\<rparr>))) = []"
proof -
  let ?W = "(example_world [search_response [raw_video ''v1'' ''2024-01-02'']])
          \<lparr>environ := [''YOUTUBE_API_KEY'' \<mapsto> ''key''],
           config_file := Some (example_config True True [''a''] [''x''])\<rparr>"
  have h: "environ ?W ''REDDIT_CLIENT_ID'' = None" by (simp add: example_world_def)
  then have "environ ?W ''YOUTUBE_API_KEY'' \<in> {None, Some []} \<or>
           environ ?W ''REDDIT_CLIENT_ID'' \<in> {None, Some []} \<or>
           environ ?W ''REDDIT_CLIENT_SECRET'' \<in> {None, Some []} \<or>
           (\<exists>status body rest. script ?W = Response status body # rest \<and> status \<noteq> 200)"
    by simp
  from construction_failure_aborts_run[OF this] h show ?thesis
    by (simp add: example_world_def)
qed

section \<open>Successive fetches\<close>

lemma http_request_future:
  assumes "same_future u w"
  shows "fst (http_request rq u) = fst (http_request rq w) \<and>
         same_future (snd (http_request rq u)) (snd (http_request rq w))"
  using assms by (auto simp: same_future_def http_request_def split: list.splits)

lemma dedup_loop_future:
  assumes "same_future u w"
  shows "fst (dedup_loop ex ident raws st u) = fst (dedup_loop ex ident raws st w) \<and>
         fst (snd (dedup_loop ex ident raws st u)) = fst (snd (dedup_loop ex ident raws st w)) \<and>
         same_future (snd (snd (dedup_loop ex ident raws st u)))
                     (snd (snd (dedup_loop ex ident raws st w)))"
  using assms
proof (induction raws arbitrary: st u w)
  case Nil
  then show ?case by simp
next
  case (Cons raw raws)
  obtain acc seen where st: "st = (acc, seen)" by (cases st)
  from Cons.prems have eq: "clock u (ticks u) = clock w (ticks w)"
    by (simp add: same_future_def)
  from Cons.prems have tick: "same_future (snd (datetime_now u)) (snd (datetime_now w))"
    by (simp add: same_future_def datetime_now_def)
  show ?case
  proof (cases "ex (isoformat (clock w (ticks w))) raw")
    case (Inl e)
    with Cons.prems eq show ?thesis by (simp add: st)
  next
    case (Inr ro)
    show ?thesis
    proof (cases ro)
      case None
      with Inr eq Cons.IH[OF Cons.prems] show ?thesis by (simp add: st)
    next
      case (Some r)
      show ?thesis
      proof (cases "py_hash_key (ident r)")
        case (Inl e)
        with Inr Some eq tick show ?thesis by (simp add: st)
      next
        case k: (Inr k)
        with Inr Some eq Cons.IH[OF tick] show ?thesis by (simp add: st)
      qed
    qed
  qed
qed


lemma subreddit_posts_future:
  assumes "same_future u w"
  shows "fst (subreddit_posts s u) = fst (subreddit_posts s w) \<and>
         same_future (snd (subreddit_posts s u)) (snd (subreddit_posts s w))"
proof -
  obtain o1 u1 where a: "http_request (HotRequest s 25) u = (o1, u1)"
    by (cases "http_request (HotRequest s 25) u")
  obtain o2 w1 where b: "http_request (HotRequest s 25) w = (o2, w1)"
    by (cases "http_request (HotRequest s 25) w")
  from http_request_future[OF assms, of "HotRequest s 25"] a b
  have "o1 = o2" "same_future u1 w1" by simp_all
  with a b show ?thesis
    by (simp add: subreddit_posts_def split: http_outcome.splits option.splits sum.splits)
qed

lemma term_items_future:
  assumes "same_future u w"
  shows "fst (term_items self m terms t u) = fst (term_items self m terms t w) \<and>
         same_future (snd (term_items self m terms t u)) (snd (term_items self m terms t w))"
proof -
  let ?rq = "SearchRequest t (m div int (length terms)) (api_key self)"
  obtain o1 u1 where a: "http_request ?rq u = (o1, u1)" by (cases "http_request ?rq u")
  obtain o2 w1 where b: "http_request ?rq w = (o2, w1)" by (cases "http_request ?rq w")
  from http_request_future[OF assms, of ?rq] a b
  have "o1 = o2" "same_future u1 w1" by simp_all
  with a b show ?thesis
    by (simp add: term_items_def split: http_outcome.splits option.splits sum.splits)
qed

lemma fetch_subreddit_future:
  assumes "same_future u w"
  shows "fst (fetch_subreddit s st u) = fst (fetch_subreddit s st w) \<and>
         same_future (snd (fetch_subreddit s st u)) (snd (fetch_subreddit s st w))"
proof -
  obtain r1 u1 where a: "subreddit_posts s u = (r1, u1)" by (cases "subreddit_posts s u")
  obtain r2 w1 where b: "subreddit_posts s w = (r2, w1)" by (cases "subreddit_posts s w")
  from subreddit_posts_future[OF assms, of s] a b
  have eq: "r1 = r2" and sf: "same_future u1 w1" by simp_all
  show ?thesis
  proof (cases r2)
    case None
    with a b eq sf show ?thesis by (simp add: fetch_subreddit_def)
  next
    case (Some posts)
    with a b eq have
      "fetch_subreddit s st u = snd (dedup_loop extract_post_data p_id posts st u1)"
      "fetch_subreddit s st w = snd (dedup_loop extract_post_data p_id posts st w1)"
      by (simp_all add: fetch_subreddit_def)
    with dedup_loop_future[OF sf, of extract_post_data p_id posts st] show ?thesis
      by (simp add: prod_eq_iff)
  qed
qed

lemma fetch_term_future:
  assumes "same_future u w"
  shows "fst (fetch_term self m terms t st u) = fst (fetch_term self m terms t st w) \<and>
         same_future (snd (fetch_term self m terms t st u)) (snd (fetch_term self m terms t st w))"
proof -
  obtain r1 u1 where a: "term_items self m terms t u = (r1, u1)"
    by (cases "term_items self m terms t u")
  obtain r2 w1 where b: "term_items self m terms t w = (r2, w1)"
    by (cases "term_items self m terms t w")
  from term_items_future[OF assms, of self m terms t] a b
  have eq: "r1 = r2" and sf: "same_future u1 w1" by simp_all
  show ?thesis
  proof (cases r2)
    case None
    with a b eq sf show ?thesis by (simp add: fetch_term_def)
  next
    case (Some items)
    with a b eq have
      "fetch_term self m terms t st u = snd (dedup_loop extract_video_data v_videoId items st u1)"
      "fetch_term self m terms t st w = snd (dedup_loop extract_video_data v_videoId items st w1)"
      by (simp_all add: fetch_term_def)
    with dedup_loop_future[OF sf, of extract_video_data v_videoId items st] show ?thesis
      by (simp add: prod_eq_iff)
  qed
qed

lemma fetch_subreddits_future:
  assumes "same_future u w"
  shows "fst (fetch_subreddits subs st u) = fst (fetch_subreddits subs st w) \<and>
         same_future (snd (fetch_subreddits subs st u)) (snd (fetch_subreddits subs st w))"
  using assms
proof (induction subs arbitrary: st u w)
  case Nil
  then show ?case by simp
next
  case (Cons s subs)
  obtain st1 u1 where a: "fetch_subreddit s st u = (st1, u1)" by (cases "fetch_subreddit s st u")
  obtain st2 w1 where b: "fetch_subreddit s st w = (st2, w1)" by (cases "fetch_subreddit s st w")
  from fetch_subreddit_future[OF Cons.prems, of s st] a b
  have eq: "st1 = st2" and sf: "same_future u1 w1" by simp_all
  from Cons.IH[OF sf, of st2] a b eq show ?case by simp
qed

lemma fetch_terms_future:
  assumes "same_future u w"
  shows "fst (fetch_terms self m terms ts st u) = fst (fetch_terms self m terms ts st w) \<and>
         same_future (snd (fetch_terms self m terms ts st u)) (snd (fetch_terms self m terms ts st w))"
  using assms
proof (induction ts arbitrary: st u w)
  case Nil
  then show ?case by simp
next
  case (Cons t ts)
  obtain st1 u1 where a: "fetch_term self m terms t st u = (st1, u1)"
    by (cases "fetch_term self m terms t st u")
  obtain st2 w1 where b: "fetch_term self m terms t st w = (st2, w1)"
    by (cases "fetch_term self m terms t st w")
  from fetch_term_future[OF Cons.prems, of self m terms t st] a b
  have eq: "st1 = st2" and sf: "same_future u1 w1" by simp_all
  from Cons.IH[OF sf, of st2] a b eq show ?case by simp
qed


lemma fetch_reddit_posts_future:
  assumes "same_future u w"
  shows "fst (fetch_reddit_posts rf n u) = fst (fetch_reddit_posts rf n w) \<and>
         same_future (snd (fetch_reddit_posts rf n u)) (snd (fetch_reddit_posts rf n w))"
proof (cases "\<not> (case enabled (reddit_config rf) of None \<Rightarrow> False | Some b \<Rightarrow> b)")
  case True
  with assms show ?thesis by (simp add: fetch_reddit_posts_def)
next
  case on: False
  let ?subs = "case subreddits (reddit_config rf) of None \<Rightarrow> [] | Some l \<Rightarrow> l"
  show ?thesis
  proof (cases ?subs)
    case Nil
    with assms on show ?thesis by (simp add: fetch_reddit_posts_def)
  next
    case (Cons s ss)
    obtain st1 u1 where a: "fetch_subreddits ?subs ([], {}) u = (st1, u1)"
      by (cases "fetch_subreddits ?subs ([], {}) u")
    obtain st2 w1 where b: "fetch_subreddits ?subs ([], {}) w = (st2, w1)"
      by (cases "fetch_subreddits ?subs ([], {}) w")
    from fetch_subreddits_future[OF assms, of ?subs "([], {})"] a b
    have eq: "st1 = st2" and sf: "same_future u1 w1" by simp_all
    obtain acc seen where st2: "st2 = (acc, seen)" by (cases st2)
    from on Cons a b eq st2 sf show ?thesis
      by (cases "sort_reverse p_score acc") (simp_all add: fetch_reddit_posts_def)
  qed
qed

lemma fetch_youtube_videos_future:
  assumes "same_future u w"
  shows "fst (fetch_youtube_videos yf n u) = fst (fetch_youtube_videos yf n w) \<and>
         same_future (snd (fetch_youtube_videos yf n u)) (snd (fetch_youtube_videos yf n w))"
proof (cases "bind_err (case sources (yf_config yf) of None \<Rightarrow> Inl KeyError | Some s \<Rightarrow> Inr s)
             (\<lambda>s. case s ''youtube'' of None \<Rightarrow> Inl KeyError | Some c \<Rightarrow> Inr c)")
  case (Inl e)
  with assms show ?thesis by (simp add: fetch_youtube_videos_def)
next
  case (Inr c)
  note c = this
  show ?thesis
  proof (cases "\<not> (case enabled c of None \<Rightarrow> False | Some b \<Rightarrow> b)")
    case True
    with assms c show ?thesis by (simp add: fetch_youtube_videos_def)
  next
    case on: False
    let ?terms = "case search_terms c of None \<Rightarrow> [] | Some l \<Rightarrow> l"
    show ?thesis
    proof (cases ?terms)
      case Nil
      with assms c on show ?thesis by (simp add: fetch_youtube_videos_def)
    next
      case (Cons t ts)
      obtain st1 u1 where a: "fetch_terms yf n ?terms ?terms ([], {}) u = (st1, u1)"
        by (cases "fetch_terms yf n ?terms ?terms ([], {}) u")
      obtain st2 w1 where b: "fetch_terms yf n ?terms ?terms ([], {}) w = (st2, w1)"
        by (cases "fetch_terms yf n ?terms ?terms ([], {}) w")
      from fetch_terms_future[OF assms, of yf n ?terms ?terms "([], {})"] a b
      have eq: "st1 = st2" and sf: "same_future u1 w1" by simp_all
      obtain acc seen where st2: "st2 = (acc, seen)" by (cases st2)
      from c on Cons a b eq st2 sf show ?thesis
        by (cases "sort_reverse v_publishedAt acc") (simp_all add: fetch_youtube_videos_def)
    qed
  qed
qed

lemma fetch_reddit_posts_clock: "clock (snd (fetch_reddit_posts rf n w)) = clock w"
proof (cases "\<not> (case enabled (reddit_config rf) of None \<Rightarrow> False | Some b \<Rightarrow> b)")
  case True
  then show ?thesis by (simp add: fetch_reddit_posts_def)
next
  case on: False
  let ?subs = "case subreddits (reddit_config rf) of None \<Rightarrow> [] | Some l \<Rightarrow> l"
  show ?thesis
  proof (cases ?subs)
    case Nil
    with on show ?thesis by (simp add: fetch_reddit_posts_def)
  next
    case (Cons s ss)
    obtain acc seen w1 where b: "fetch_subreddits ?subs ([], {}) w = ((acc, seen), w1)"
      by (cases "fetch_subreddits ?subs ([], {}) w") auto
    from on Cons b fetch_subreddits_frame[OF b] show ?thesis
      by (cases "sort_reverse p_score acc") (simp_all add: fetch_reddit_posts_def)
  qed
qed

lemma fetch_youtube_videos_clock: "clock (snd (fetch_youtube_videos yf n w)) = clock w"
proof (cases "bind_err (case sources (yf_config yf) of None \<Rightarrow> Inl KeyError | Some s \<Rightarrow> Inr s)
             (\<lambda>s. case s ''youtube'' of None \<Rightarrow> Inl KeyError | Some c \<Rightarrow> Inr c)")
  case (Inl e)
  then show ?thesis by (simp add: fetch_youtube_videos_def)
next
  case (Inr c)
  note c = this
  show ?thesis
  proof (cases "\<not> (case enabled c of None \<Rightarrow> False | Some b \<Rightarrow> b)")
    case True
    with c show ?thesis by (simp add: fetch_youtube_videos_def)
  next
    case on: False
    let ?terms = "case search_terms c of None \<Rightarrow> [] | Some l \<Rightarrow> l"
    show ?thesis
    proof (cases ?terms)
      case Nil
      with c on show ?thesis by (simp add: fetch_youtube_videos_def)
    next
      case (Cons t ts)
      obtain acc seen w1 where b: "fetch_terms yf n ?terms ?terms ([], {}) w = ((acc, seen), w1)"
        by (cases "fetch_terms yf n ?terms ?terms ([], {}) w") auto
      from c on Cons b fetch_terms_frame[OF b] show ?thesis
        by (cases "sort_reverse v_publishedAt acc") (simp_all add: fetch_youtube_videos_def)
    qed
  qed
qed

section \<open>Deduplication: the first processed occurrence is kept\<close>

lemma first_kept_empty: "first_kept ident [] {} []"
  by (simp add: first_kept_def)

lemma find_append_left: "find P xs = Some x \<Longrightarrow> find P (xs @ ys) = Some x"
  by (induction xs) (auto split: if_splits)

lemma find_append_right: "\<forall>x \<in> set xs. \<not> P x \<Longrightarrow> find P (xs @ ys) = find P ys"
  by (induction xs) auto

lemma first_kept_new:
  assumes "first_kept ident acc seen cands" and "scalar_key (ident r) = Some k" and "k \<notin> seen"
  shows "first_kept ident (acc @ [r]) (insert k seen) (cands @ [r])"
proof -
  let ?K = "\<lambda>r. scalar_key (ident r)"
  from assms(1) have s: "Some ` seen = ?K ` set acc" and d: "distinct (map ?K acc)"
    and c: "?K ` set cands = ?K ` set acc"
    and f: "\<forall>r \<in> set acc. find (\<lambda>c. ?K c = ?K r) cands = Some r"
    by (simp_all add: first_kept_def)
  from assms(2,3) s have notin: "Some k \<notin> ?K ` set acc" by auto
  with c have notc: "\<forall>x \<in> set cands. \<not> (?K x = ?K r)" using assms(2) by (metis image_eqI)
  have 1: "Some ` insert k seen = ?K ` set (acc @ [r])" using s assms(2) by auto
  have 2: "distinct (map ?K (acc @ [r]))" using d notin assms(2) by simp
  have 3: "?K ` set (cands @ [r]) = ?K ` set (acc @ [r])" using c by auto
  have 4: "find (\<lambda>c. ?K c = ?K r') (cands @ [r]) = Some r'" if "r' \<in> set (acc @ [r])" for r'
  proof (cases "r' \<in> set acc")
    case True
    with f show ?thesis by (simp add: find_append_left)
  next
    case False
    with that have "r' = r" by simp
    with notc show ?thesis by (simp add: find_append_right)
  qed
  from 1 2 3 4 show ?thesis unfolding first_kept_def by blast
qed

lemma first_kept_dup:
  assumes "first_kept ident acc seen cands" and "scalar_key (ident r) = Some k" and "k \<in> seen"
  shows "first_kept ident acc seen (cands @ [r])"
proof -
  let ?K = "\<lambda>r. scalar_key (ident r)"
  from assms(1) have s: "Some ` seen = ?K ` set acc" and d: "distinct (map ?K acc)"
    and c: "?K ` set cands = ?K ` set acc"
    and f: "\<forall>r \<in> set acc. find (\<lambda>c. ?K c = ?K r) cands = Some r"
    by (simp_all add: first_kept_def)
  from assms(2,3) s have "?K r \<in> ?K ` set acc" by (metis image_eqI)
  with c have 3: "?K ` set (cands @ [r]) = ?K ` set acc" by auto
  have 4: "\<forall>r' \<in> set acc. find (\<lambda>c. ?K c = ?K r') (cands @ [r]) = Some r'"
    using f by (simp add: find_append_left)
  from s d 3 4 show ?thesis unfolding first_kept_def by blast
qed


lemma dedup_loop_first_kept:
  assumes "first_kept ident acc seen cands"
  shows "first_kept ident (fst (fst (snd (dedup_loop ex ident raws (acc, seen) w))))
           (snd (fst (snd (dedup_loop ex ident raws (acc, seen) w))))
           (cands @ fst (built_records ex ident raws w)) \<and>
         snd (snd (dedup_loop ex ident raws (acc, seen) w)) = snd (built_records ex ident raws w)"
  using assms
proof (induction raws arbitrary: acc seen cands w)
  case Nil
  then show ?case by simp
next
  case (Cons raw raws)
  show ?case
  proof (cases "ex (isoformat (clock w (ticks w))) raw")
    case (Inl e)
    with Cons.prems show ?thesis by simp
  next
    case (Inr ro)
    show ?thesis
    proof (cases ro)
      case None
      with Inr Cons.IH[OF Cons.prems, of w] show ?thesis by simp
    next
      case (Some r)
      show ?thesis
      proof (cases "scalar_key (ident r)")
        case None
        with Inr Some Cons.prems show ?thesis by (simp add: py_hash_key_def)
      next
        case k: (Some k)
        let ?w = "snd (datetime_now w)"
        obtain rs w' where b: "built_records ex ident raws ?w = (rs, w')"
          by (cases "built_records ex ident raws ?w")
        show ?thesis
        proof (cases "k \<in> seen")
          case True
          from first_kept_dup[OF Cons.prems k True]
          have "first_kept ident acc seen (cands @ [r])" .
          from Cons.IH[OF this, of ?w] Inr Some k True b show ?thesis
            by (simp add: py_hash_key_def)
        next
          case False
          from first_kept_new[OF Cons.prems k False]
          have "first_kept ident (acc @ [r]) (insert k seen) (cands @ [r])" .
          from Cons.IH[OF this, of ?w] Inr Some k False b show ?thesis
            by (simp add: py_hash_key_def)
        qed
      qed
    qed
  qed
qed

lemma fetch_subreddits_first_kept:
  assumes "first_kept p_id acc seen cands"
  shows "first_kept p_id (fst (fst (fetch_subreddits subs (acc, seen) w)))
           (snd (fst (fetch_subreddits subs (acc, seen) w)))
           (cands @ subreddit_candidates subs w)"
  using assms
proof (induction subs arbitrary: acc seen cands w)
  case Nil
  then show ?case by simp
next
  case (Cons s subs)
  obtain r w1 where sp: "subreddit_posts s w = (r, w1)" by (cases "subreddit_posts s w")
  show ?case
  proof (cases r)
    case None
    with sp Cons.IH[OF Cons.prems, of w1] show ?thesis by (simp add: fetch_subreddit_def)
  next
    case (Some posts)
    obtain e acc1 seen1 w2 where
      dl: "dedup_loop extract_post_data p_id posts (acc, seen) w1 = (e, (acc1, seen1), w2)"
      by (cases "dedup_loop extract_post_data p_id posts (acc, seen) w1") auto
    obtain rs w3 where br: "built_records extract_post_data p_id posts w1 = (rs, w3)"
      by (cases "built_records extract_post_data p_id posts w1")
    from dedup_loop_first_kept[OF Cons.prems, of extract_post_data posts w1] dl br
    have fk: "first_kept p_id acc1 seen1 (cands @ rs)" and w: "w2 = w3" by simp_all
    from Cons.IH[OF fk, of w2] sp Some dl br w show ?thesis
      by (simp add: fetch_subreddit_def)
  qed
qed

lemma fetch_terms_first_kept:
  assumes "first_kept v_videoId acc seen cands"
  shows "first_kept v_videoId (fst (fst (fetch_terms self m terms ts (acc, seen) w)))
           (snd (fst (fetch_terms self m terms ts (acc, seen) w)))
           (cands @ term_candidates self m terms ts w)"
  using assms
proof (induction ts arbitrary: acc seen cands w)
  case Nil
  then show ?case by simp
next
  case (Cons t ts)
  obtain r w1 where ti: "term_items self m terms t w = (r, w1)"
    by (cases "term_items self m terms t w")
  show ?case
  proof (cases r)
    case None
    with ti Cons.IH[OF Cons.prems, of w1] show ?thesis by (simp add: fetch_term_def)
  next
    case (Some items)
    obtain e acc1 seen1 w2 where
      dl: "dedup_loop extract_video_data v_videoId items (acc, seen) w1 = (e, (acc1, seen1), w2)"
      by (cases "dedup_loop extract_video_data v_videoId items (acc, seen) w1") auto
    obtain rs w3 where br: "built_records extract_video_data v_videoId items w1 = (rs, w3)"
      by (cases "built_records extract_video_data v_videoId items w1")
    from dedup_loop_first_kept[OF Cons.prems, of extract_video_data items w1] dl br
    have fk: "first_kept v_videoId acc1 seen1 (cands @ rs)" and w: "w2 = w3" by simp_all
    from Cons.IH[OF fk, of w2] ti Some dl br w show ?thesis
      by (simp add: fetch_term_def)
  qed
qed

lemma set_insort_desc: "set (insort_desc key x ys) = insert x (set ys)"
  by (induction ys) auto

lemma set_foldr_insort_desc: "set (foldr (insort_desc key) xs []) = set xs"
  by (induction xs) (auto simp: set_insort_desc)

lemma distinct_map_insort_desc:
  "distinct (map f (insort_desc key x ys)) = (f x \<notin> f ` set ys \<and> distinct (map f ys))"
  by (induction ys) (auto simp: set_insort_desc)

lemma distinct_map_foldr_insort_desc:
  "distinct (map f (foldr (insort_desc key) xs [])) = distinct (map f xs)"
  by (induction xs) (auto simp: distinct_map_insort_desc set_foldr_insort_desc)

lemma py_slice_to_take: "\<exists>m. py_slice_to n xs = take m xs"
  by (auto simp: py_slice_to_def)

lemma sort_slice_subset:
  assumes "sort_reverse key acc = Inr sorted_results"
  shows "set (py_slice_to n sorted_results) \<subseteq> set acc \<and>
         (distinct (map f acc) \<longrightarrow> distinct (map f (py_slice_to n sorted_results)))"
proof -
  from assms have s: "sorted_results = foldr (insort_desc key) acc []"
    by (simp add: sort_reverse_def split: if_splits)
  obtain m where m: "py_slice_to n sorted_results = take m sorted_results"
    using py_slice_to_take by blast
  have "set (take m sorted_results) \<subseteq> set acc"
    using set_take_subset[of m sorted_results] by (simp add: s set_foldr_insort_desc)
  moreover have "distinct (map f (take m sorted_results))" if "distinct (map f acc)"
    using that by (simp add: s distinct_map_foldr_insort_desc take_map[symmetric] distinct_take)
  ultimately show ?thesis using m by simp
qed

lemma first_kept_result:
  assumes fk: "first_kept ident acc seen cands"
    and sub: "set ps \<subseteq> set acc"
    and dist: "distinct (map (\<lambda>r. scalar_key (ident r)) acc) \<longrightarrow>
               distinct (map (\<lambda>r. scalar_key (ident r)) ps)"
  shows "distinct (map (\<lambda>r. scalar_key (ident r)) ps) \<and>
         (\<forall>r \<in> set ps. scalar_key (ident r) \<noteq> None \<and>
            find (\<lambda>c. scalar_key (ident c) = scalar_key (ident r)) cands = Some r)"
proof -
  let ?K = "\<lambda>r. scalar_key (ident r)"
  from fk have s: "Some ` seen = ?K ` set acc" and d: "distinct (map ?K acc)"
    and f: "\<forall>r \<in> set acc. find (\<lambda>c. ?K c = ?K r) cands = Some r"
    by (simp_all add: first_kept_def)
  have "?K r \<noteq> None" if "r \<in> set acc" for r
  proof -
    from that s have "?K r \<in> Some ` seen" by blast
    then show ?thesis by auto
  qed
  with d f sub dist show ?thesis by blast
qed

text \<open>
  C1, as stated, fails in its second half.  The first response holds an item whose
  \<open>data\<close> is \<open>null\<close> and then post \<open>1\<close> with score 5; the second response holds post
  \<open>1\<close> with score 9.  The extractor raises on the first item, the rest of the first
  response is skipped, and the record kept for identity key \<open>1\<close> is the one of the
  second response, not the one of its first occurrence.
\<close>

theorem later_duplicate_kept_after_raise:
  "fst (fetch_reddit_posts (example_reddit_fetcher [''a'', ''b'']) 10
     (example_world [hot_response [JObj [(''data'', JNull)], raw_post ''1'' 5],
                     hot_response [raw_post ''1'' 9]]))
     = Inr [example_post ''1'' 9] \<and>
   extract_post_data ''2024-01-01T00:00:00'' (raw_post ''1'' 5) = Inr (Some (example_post ''1'' 5)) \<and>
   p_id (example_post ''1'' 5) = p_id (example_post ''1'' 9) \<and>
   p_score (example_post ''1'' 5) \<noteq> p_score (example_post ''1'' 9)"
  by code_simp

text \<open>
  C1, amended: no two records of a returned list share an identity key (as Python's
  set compares keys, so that \<open>1\<close>, \<open>1.0\<close> and \<open>True\<close> are one key), every key is hashable,
  and the record kept for a key is the first with that key among the records the fetch
  builds, in query-target order, then item order, from the items it processes; within
  one response the items after one that raises are not processed.  A later record with
  the same key is dropped whatever its rank.
\<close>

theorem kept_record_is_first_processed:
  "(fst (fetch_reddit_posts rf n w) = Inr ps \<longrightarrow>
      distinct (map (\<lambda>r. scalar_key (p_id r)) ps) \<and>
      (\<forall>r \<in> set ps. scalar_key (p_id r) \<noteq> None \<and>
         find (\<lambda>c. scalar_key (p_id c) = scalar_key (p_id r)) (reddit_candidates rf w) = Some r)) \<and>
   (fst (fetch_youtube_videos yf n w') = Inr vs \<longrightarrow>
      distinct (map (\<lambda>v. scalar_key (v_videoId v)) vs) \<and>
      (\<forall>v \<in> set vs. scalar_key (v_videoId v) \<noteq> None \<and>
         find (\<lambda>c. scalar_key (v_videoId c) = scalar_key (v_videoId v)) (youtube_candidates yf n w')
           = Some v))"
proof -
  have reddit: "distinct (map (\<lambda>r. scalar_key (p_id r)) ps) \<and>
      (\<forall>r \<in> set ps. scalar_key (p_id r) \<noteq> None \<and>
         find (\<lambda>c. scalar_key (p_id c) = scalar_key (p_id r)) (reddit_candidates rf w) = Some r)"
    if ret: "fst (fetch_reddit_posts rf n w) = Inr ps"
    using fetch_reddit_posts_Inr[OF ret]
  proof
    assume "ps = []"
    then show ?thesis by simp
  next
    let ?subs = "case subreddits (reddit_config rf) of None \<Rightarrow> [] | Some l \<Rightarrow> l"
    let ?acc = "fst (fst (fetch_subreddits ?subs ([], {}) w))"
    assume "\<exists>sorted_results. sort_reverse p_score ?acc = Inr sorted_results \<and>
              ps = py_slice_to n sorted_results"
    then obtain sorted_results where so: "sort_reverse p_score ?acc = Inr sorted_results"
      and ps: "ps = py_slice_to n sorted_results" by blast
    from fetch_subreddits_first_kept[OF first_kept_empty, of ?subs w]
    have fk: "first_kept p_id ?acc (snd (fst (fetch_subreddits ?subs ([], {}) w)))
                (reddit_candidates rf w)"
      by (simp add: reddit_candidates_def)
    from sort_slice_subset[OF so, of n "\<lambda>r. scalar_key (p_id r)"] ps
    have "set ps \<subseteq> set ?acc"
      and "distinct (map (\<lambda>r. scalar_key (p_id r)) ?acc) \<longrightarrow>
           distinct (map (\<lambda>r. scalar_key (p_id r)) ps)" by simp_all
    from first_kept_result[OF fk this] show ?thesis .
  qed
  have youtube: "distinct (map (\<lambda>v. scalar_key (v_videoId v)) vs) \<and>
      (\<forall>v \<in> set vs. scalar_key (v_videoId v) \<noteq> None \<and>
         find (\<lambda>c. scalar_key (v_videoId c) = scalar_key (v_videoId v)) (youtube_candidates yf n w')
           = Some v)"
    if ret: "fst (fetch_youtube_videos yf n w') = Inr vs"
    using fetch_youtube_videos_Inr[OF ret]
  proof
    assume "vs = []"
    then show ?thesis by simp
  next
    assume "\<exists>s c terms sorted_results.
           sources (yf_config yf) = Some s \<and> s ''youtube'' = Some c \<and>
           search_terms c = Some terms \<and>
           sort_reverse v_publishedAt (fst (fst (fetch_terms yf n terms terms ([], {}) w')))
             = Inr sorted_results \<and>
           vs = py_slice_to n sorted_results"
    then obtain s c terms sorted_results where cfg: "sources (yf_config yf) = Some s"
      "s ''youtube'' = Some c" "search_terms c = Some terms"
      and so: "sort_reverse v_publishedAt (fst (fst (fetch_terms yf n terms terms ([], {}) w')))
                 = Inr sorted_results"
      and vs: "vs = py_slice_to n sorted_results" by blast
    let ?acc = "fst (fst (fetch_terms yf n terms terms ([], {}) w'))"
    from fetch_terms_first_kept[OF first_kept_empty, of yf n terms terms w'] cfg
    have fk: "first_kept v_videoId ?acc (snd (fst (fetch_terms yf n terms terms ([], {}) w')))
                (youtube_candidates yf n w')"
      by (simp add: youtube_candidates_def)
    from sort_slice_subset[OF so, of n "\<lambda>v. scalar_key (v_videoId v)"] vs
    have "set vs \<subseteq> set ?acc"
      and "distinct (map (\<lambda>v. scalar_key (v_videoId v)) ?acc) \<longrightarrow>
           distinct (map (\<lambda>v. scalar_key (v_videoId v)) vs)" by simp_all
    from first_kept_result[OF fk this] show ?thesis .
  qed
  from reddit youtube show ?thesis by blast
qed

theorem kept_record_is_first_processed_witness:
  "fst (fetch_reddit_posts (example_reddit_fetcher [''a'', ''b'']) 2
     (example_world [hot_response [raw_post ''1'' 5, raw_post ''2'' 9],
                     hot_response [raw_post ''2'' 7, raw_post ''3'' 1]]))
     = Inr [example_post ''2'' 9, example_post ''1'' 5] \<and>
   reddit_candidates (example_reddit_fetcher [''a'', ''b''])
     (example_world [hot_response [raw_post ''1'' 5, raw_post ''2'' 9],
                     hot_response [raw_post ''2'' 7, raw_post ''3'' 1]])
     = [example_post ''1'' 5, example_post ''2'' 9, example_post ''2'' 7, example_post ''3'' 1] \<and>
   find (\<lambda>c. scalar_key (p_id c) = scalar_key (p_id (example_post ''2'' 9)))
     (reddit_candidates (example_reddit_fetcher [''a'', ''b''])
        (example_world [hot_response [raw_post ''1'' 5, raw_post ''2'' 9],
                        hot_response [raw_post ''2'' 7, raw_post ''3'' 1]]))
     = Some (example_post ''2'' 9) \<and>
   fst (fetch_youtube_videos (example_youtube_fetcher [''x'', ''y'']) 2
     (example_world [search_response [raw_video ''v1'' ''2024-01-02''],
                     search_response [raw_video ''v1'' ''2024-01-05'',
                                      raw_video ''v2'' ''2024-01-03'']]))
     = Inr [example_video ''v2'' ''2024-01-03'', example_video ''v1'' ''2024-01-02''] \<and>
   find (\<lambda>c. scalar_key (v_videoId c) = scalar_key (v_videoId (example_video ''v1'' ''2024-01-02'')))
     (youtube_candidates (example_youtube_fetcher [''x'', ''y'']) 2
        (example_world [search_response [raw_video ''v1'' ''2024-01-02''],
                        search_response [raw_video ''v1'' ''2024-01-05'',
                                         raw_video ''v2'' ''2024-01-03'']]))
     = Some (example_video ''v1'' ''2024-01-02'')"
proof -
  let ?F = "example_reddit_fetcher [''a'', ''b'']"
  let ?W = "example_world [hot_response [raw_post ''1'' 5, raw_post ''2'' 9],
                           hot_response [raw_post ''2'' 7, raw_post ''3'' 1]]"
  let ?Y = "example_youtube_fetcher [''x'', ''y'']"
  let ?V = "example_world [search_response [raw_video ''v1'' ''2024-01-02''],
                           search_response [raw_video ''v1'' ''2024-01-05'',
                                            raw_video ''v2'' ''2024-01-03'']]"
  have r: "fst (fetch_reddit_posts ?F 2 ?W) = Inr [example_post ''2'' 9, example_post ''1'' 5]"
    by code_simp
  have c: "reddit_candidates ?F ?W =
      [example_post ''1'' 5, example_post ''2'' 9, example_post ''2'' 7, example_post ''3'' 1]"
    by code_simp
  have y: "fst (fetch_youtube_videos ?Y 2 ?V) =
      Inr [example_video ''v2'' ''2024-01-03'', example_video ''v1'' ''2024-01-02'']"
    by code_simp
  from kept_record_is_first_processed
         [where rf = ?F and n = 2 and w = ?W
            and ps = "[example_post ''2'' 9, example_post ''1'' 5]"
            and yf = ?Y and w' = ?V
            and vs = "[example_video ''v2'' ''2024-01-03'', example_video ''v1'' ''2024-01-02'']"]
       r y
  have "find (\<lambda>c. scalar_key (p_id c) = scalar_key (p_id (example_post ''2'' 9)))
          (reddit_candidates ?F ?W) = Some (example_post ''2'' 9)"
    and "find (\<lambda>c. scalar_key (v_videoId c) =
                    scalar_key (v_videoId (example_video ''v1'' ''2024-01-02'')))
          (youtube_candidates ?Y 2 ?V) = Some (example_video ''v1'' ''2024-01-02'')"
    by simp_all
  with r c y show ?thesis by simp
qed

section \<open>Equality and order of the ranking keys\<close>





































section \<open>The sort orders by the key and keeps ties in place\<close>


lemma all_comparable_sorted_wrt:
  "all_comparable (map key xs) =
     sorted_wrt (\<lambda>a b. py_lt (key a) (key b) \<noteq> None \<and> py_lt (key b) (key a) \<noteq> None) xs"
  by (induction xs) auto











section \<open>Each call starts with nothing seen\<close>

lemma length_insort_desc: "length (insort_desc key x ys) = Suc (length ys)"
  by (induction ys) auto

lemma length_foldr_insort_desc: "length (foldr (insort_desc key) xs []) = length xs"
  by (induction xs) (auto simp: length_insort_desc)

lemma sort_reverse_set_length:
  assumes "sort_reverse key acc = Inr sorted_results"
  shows "set sorted_results = set acc \<and> length sorted_results = length acc"
  using assms
  by (auto simp: sort_reverse_def set_foldr_insort_desc length_foldr_insort_desc
           split: if_splits)

lemma sort_reverse_Nil: "sort_reverse key [] = Inr []"
  by (simp add: sort_reverse_def)

lemma py_slice_to_all: "int (length xs) \<le> n \<Longrightarrow> py_slice_to n xs = xs"
  by (simp add: py_slice_to_def)

lemma fetch_reddit_posts_enabled:
  assumes "enabled (reddit_config rf) = Some True"
  shows "fst (fetch_reddit_posts rf n w) =
     (case sort_reverse p_score (reddit_accumulated rf w) of
        Inl e \<Rightarrow> Inl e
      | Inr sorted_results \<Rightarrow> Inr (py_slice_to n sorted_results))"
proof (cases "case subreddits (reddit_config rf) of None \<Rightarrow> [] | Some l \<Rightarrow> l")
  case Nil
  with assms show ?thesis
    by (simp add: fetch_reddit_posts_def reddit_accumulated_def sort_reverse_Nil py_slice_to_def)
next
  case (Cons a list)
  obtain acc seen w1 where b:
    "fetch_subreddits (a # list) ([], {}) w = ((acc, seen), w1)"
    by (cases "fetch_subreddits (a # list) ([], {}) w") auto
  with assms Cons show ?thesis
    by (cases "sort_reverse p_score acc")
       (simp_all add: fetch_reddit_posts_def reddit_accumulated_def)
qed

lemma fetch_youtube_videos_enabled:
  assumes "sources (yf_config yf) = Some s" and "s ''youtube'' = Some c"
    and "enabled c = Some True"
  shows "fst (fetch_youtube_videos yf n w) =
     (case sort_reverse v_publishedAt (youtube_accumulated yf n w) of
        Inl e \<Rightarrow> Inl e
      | Inr sorted_results \<Rightarrow> Inr (py_slice_to n sorted_results))"
proof (cases "search_terms c")
  case None
  with assms show ?thesis
    by (simp add: fetch_youtube_videos_def youtube_accumulated_def bind_err_def
          sort_reverse_Nil py_slice_to_def)
next
  case (Some terms)
  show ?thesis
  proof (cases terms)
    case Nil
    with assms Some show ?thesis
      by (simp add: fetch_youtube_videos_def youtube_accumulated_def bind_err_def
            sort_reverse_Nil py_slice_to_def)
  next
    case (Cons a list)
    obtain acc seen w1 where b:
      "fetch_terms yf n (a # list) (a # list) ([], {}) w = ((acc, seen), w1)"
      by (cases "fetch_terms yf n (a # list) (a # list) ([], {}) w") auto
    with assms Some Cons show ?thesis
      by (cases "sort_reverse v_publishedAt acc")
         (simp_all add: fetch_youtube_videos_def youtube_accumulated_def bind_err_def)
  qed
qed

lemma first_kept_keys_untruncated:
  assumes fk: "first_kept ident acc seen cands"
    and so: "sort_reverse key acc = Inr sorted_results"
    and len: "int (length cands) \<le> n"
  shows "(\<lambda>r. scalar_key (ident r)) ` set (py_slice_to n sorted_results) =
         (\<lambda>r. scalar_key (ident r)) ` set cands"
proof -
  let ?K = "\<lambda>r. scalar_key (ident r)"
  from fk have d: "distinct (map ?K acc)" and c: "?K ` set cands = ?K ` set acc"
    by (simp_all add: first_kept_def)
  from d have "length acc = card (set (map ?K acc))" by (metis distinct_card length_map)
  also have "\<dots> = card (set (map ?K cands))" using c by simp
  also have "\<dots> \<le> length (map ?K cands)" by (rule card_length)
  finally have "length acc \<le> length cands" by simp
  with len sort_reverse_set_length [OF so] have "int (length sorted_results) \<le> n" by simp
  then have "py_slice_to n sorted_results = sorted_results" by (rule py_slice_to_all)
  with sort_reverse_set_length [OF so] c show ?thesis by simp
qed

lemma reddit_first_kept:
  "first_kept p_id (reddit_accumulated rf w)
     (snd (fst (fetch_subreddits
        (case subreddits (reddit_config rf) of None \<Rightarrow> [] | Some l \<Rightarrow> l) ([], {}) w)))
     (reddit_candidates rf w)"
  using fetch_subreddits_first_kept [OF first_kept_empty,
          of "case subreddits (reddit_config rf) of None \<Rightarrow> [] | Some l \<Rightarrow> l" w]
  by (simp add: reddit_candidates_def reddit_accumulated_def)

lemma youtube_first_kept:
  assumes "sources (yf_config yf) = Some s" and "s ''youtube'' = Some c"
    and "search_terms c = Some terms"
  shows "first_kept v_videoId (youtube_accumulated yf n w)
     (snd (fst (fetch_terms yf n terms terms ([], {}) w)))
     (youtube_candidates yf n w)"
  using fetch_terms_first_kept [OF first_kept_empty, of yf n terms terms w] assms
  by (simp add: youtube_candidates_def youtube_accumulated_def)

lemma source_enabled_True:
  "(source_enabled cfg name = Inr True) =
     (\<exists>s c. sources cfg = Some s \<and> s name = Some c \<and> enabled c = Some True)"
  by (auto simp: source_enabled_def bind_err_def split: option.splits)

text \<open>
  C10: the seen set and the accumulator are local to one call and start empty.  In
  every world, and so in the world that any earlier call has left, an enabled fetch
  that returns without truncating returns a record for each identity key among the
  records it builds from the responses of this call, and for no other key: no key is
  taken as seen, and no record is there, from before.  What a later call on the same
  fetcher returns is what a call would return in the original world with only the
  consumed responses and the clock readings of the earlier call taken away; nothing
  else of the earlier call is read.
\<close>

theorem dedup_state_is_per_call:
  "(enabled (reddit_config rf) = Some True \<and>
    fst (fetch_reddit_posts rf n w) = Inr ps \<and>
    int (length (reddit_candidates rf w)) \<le> n \<longrightarrow>
      (\<lambda>r. scalar_key (p_id r)) ` set ps =
      (\<lambda>r. scalar_key (p_id r)) ` set (reddit_candidates rf w)) \<and>
   (source_enabled (yf_config yf) ''youtube'' = Inr True \<and>
    fst (fetch_youtube_videos yf n' w') = Inr vs \<and>
    int (length (youtube_candidates yf n' w')) \<le> n' \<longrightarrow>
      (\<lambda>v. scalar_key (v_videoId v)) ` set vs =
      (\<lambda>v. scalar_key (v_videoId v)) ` set (youtube_candidates yf n' w')) \<and>
   fst (fetch_reddit_posts rf n (snd (fetch_reddit_posts rf m w))) =
     fst (fetch_reddit_posts rf n
            (w\<lparr>script := script (snd (fetch_reddit_posts rf m w)),
               ticks := ticks (snd (fetch_reddit_posts rf m w))\<rparr>)) \<and>
   fst (fetch_youtube_videos yf n' (snd (fetch_youtube_videos yf m' w'))) =
     fst (fetch_youtube_videos yf n'
            (w'\<lparr>script := script (snd (fetch_youtube_videos yf m' w')),
                ticks := ticks (snd (fetch_youtube_videos yf m' w'))\<rparr>))"
proof -
  have reddit: "(\<lambda>r. scalar_key (p_id r)) ` set ps =
      (\<lambda>r. scalar_key (p_id r)) ` set (reddit_candidates rf w)"
    if en: "enabled (reddit_config rf) = Some True"
      and ret: "fst (fetch_reddit_posts rf n w) = Inr ps"
      and len: "int (length (reddit_candidates rf w)) \<le> n"
  proof -
    from ret fetch_reddit_posts_enabled [OF en, of n w]
    obtain sorted_results
      where so: "sort_reverse p_score (reddit_accumulated rf w) = Inr sorted_results"
        and ps: "ps = py_slice_to n sorted_results"
      by (cases "sort_reverse p_score (reddit_accumulated rf w)") auto
    from first_kept_keys_untruncated [OF reddit_first_kept so len] ps
    show ?thesis by simp
  qed
  have youtube: "(\<lambda>v. scalar_key (v_videoId v)) ` set vs =
      (\<lambda>v. scalar_key (v_videoId v)) ` set (youtube_candidates yf n' w')"
    if en: "source_enabled (yf_config yf) ''youtube'' = Inr True"
      and ret: "fst (fetch_youtube_videos yf n' w') = Inr vs"
      and len: "int (length (youtube_candidates yf n' w')) \<le> n'"
  proof -
    from en obtain s c where cfg: "sources (yf_config yf) = Some s" "s ''youtube'' = Some c"
      "enabled c = Some True"
      unfolding source_enabled_True by blast
    from ret fetch_youtube_videos_enabled [OF cfg, of n' w']
    obtain sorted_results
      where so: "sort_reverse v_publishedAt (youtube_accumulated yf n' w') = Inr sorted_results"
        and vs: "vs = py_slice_to n' sorted_results"
      by (cases "sort_reverse v_publishedAt (youtube_accumulated yf n' w')") auto
    show ?thesis
    proof (cases "search_terms c")
      case None
      with cfg have "youtube_accumulated yf n' w' = []" "youtube_candidates yf n' w' = []"
        by (simp_all add: youtube_accumulated_def youtube_candidates_def)
      with so vs show ?thesis by (simp add: sort_reverse_Nil py_slice_to_def)
    next
      case (Some terms)
      from first_kept_keys_untruncated [OF youtube_first_kept [OF cfg(1,2) Some] so len] vs
      show ?thesis by simp
    qed
  qed
  have r: "same_future (snd (fetch_reddit_posts rf m w))
             (w\<lparr>script := script (snd (fetch_reddit_posts rf m w)),
                ticks := ticks (snd (fetch_reddit_posts rf m w))\<rparr>)"
    by (simp add: same_future_def fetch_reddit_posts_clock)
  have y: "same_future (snd (fetch_youtube_videos yf m' w'))
             (w'\<lparr>script := script (snd (fetch_youtube_videos yf m' w')),
                 ticks := ticks (snd (fetch_youtube_videos yf m' w'))\<rparr>)"
    by (simp add: same_future_def fetch_youtube_videos_clock)
  from reddit youtube fetch_reddit_posts_future [OF r, of rf n]
    fetch_youtube_videos_future [OF y, of yf n']
  show ?thesis by blast
qed

theorem dedup_state_is_per_call_witness:
  "fst (fetch_reddit_posts (example_reddit_fetcher [''a'']) 5
          (example_world [hot_response [raw_post ''1'' 5], hot_response [raw_post ''1'' 7]]))
     = Inr [example_post ''1'' 5] \<and>
   fst (fetch_reddit_posts (example_reddit_fetcher [''a'']) 5
          (snd (fetch_reddit_posts (example_reddit_fetcher [''a'']) 5
             (example_world [hot_response [raw_post ''1'' 5], hot_response [raw_post ''1'' 7]]))))
     = Inr [example_post ''1'' 7] \<and>
   (\<lambda>r. scalar_key (p_id r)) ` set [example_post ''1'' 7] =
   (\<lambda>r. scalar_key (p_id r)) ` set (reddit_candidates (example_reddit_fetcher [''a''])
          (snd (fetch_reddit_posts (example_reddit_fetcher [''a'']) 5
             (example_world [hot_response [raw_post ''1'' 5], hot_response [raw_post ''1'' 7]])))) \<and>
   fst (fetch_youtube_videos (example_youtube_fetcher [''x'']) 5
          (example_world [search_response [raw_video ''v1'' ''2024-01-02''],
                          search_response [raw_video ''v1'' ''2024-01-03'']]))
     = Inr [example_video ''v1'' ''2024-01-02''] \<and>
   fst (fetch_youtube_videos (example_youtube_fetcher [''x'']) 5
          (snd (fetch_youtube_videos (example_youtube_fetcher [''x'']) 5
             (example_world [search_response [raw_video ''v1'' ''2024-01-02''],
                             search_response [raw_video ''v1'' ''2024-01-03'']]))))
     = Inr [example_video ''v1'' ''2024-01-03''] \<and>
   (\<lambda>v. scalar_key (v_videoId v)) ` set [example_video ''v1'' ''2024-01-03''] =
   (\<lambda>v. scalar_key (v_videoId v)) ` set (youtube_candidates (example_youtube_fetcher [''x'']) 5
          (snd (fetch_youtube_videos (example_youtube_fetcher [''x'']) 5
             (example_world [search_response [raw_video ''v1'' ''2024-01-02''],
                             search_response [raw_video ''v1'' ''2024-01-03'']]))))"
proof -
  let ?F = "example_reddit_fetcher [''a'']"
  let ?W = "example_world [hot_response [raw_post ''1'' 5], hot_response [raw_post ''1'' 7]]"
  let ?W1 = "snd (fetch_reddit_posts ?F 5 ?W)"
  let ?Y = "example_youtube_fetcher [''x'']"
  let ?V = "example_world [search_response [raw_video ''v1'' ''2024-01-02''],
                           search_response [raw_video ''v1'' ''2024-01-03'']]"
  let ?V1 = "snd (fetch_youtube_videos ?Y 5 ?V)"
  have r1: "fst (fetch_reddit_posts ?F 5 ?W) = Inr [example_post ''1'' 5]"
    by code_simp
  have r2: "fst (fetch_reddit_posts ?F 5 ?W1) = Inr [example_post ''1'' 7]"
    by code_simp
  have rc: "int (length (reddit_candidates ?F ?W1)) \<le> 5"
    by code_simp
  have re: "enabled (reddit_config ?F) = Some True"
    by code_simp
  have y1: "fst (fetch_youtube_videos ?Y 5 ?V) = Inr [example_video ''v1'' ''2024-01-02'']"
    by code_simp
  have y2: "fst (fetch_youtube_videos ?Y 5 ?V1) = Inr [example_video ''v1'' ''2024-01-03'']"
    by code_simp
  have yc: "int (length (youtube_candidates ?Y 5 ?V1)) \<le> 5"
    by code_simp
  have ye: "source_enabled (yf_config ?Y) ''youtube'' = Inr True"
    by code_simp
  from dedup_state_is_per_call
         [where rf = ?F and n = 5 and w = ?W1 and ps = "[example_post ''1'' 7]"
            and yf = ?Y and n' = 5 and w' = ?V1 and vs = "[example_video ''v1'' ''2024-01-03'']"]
       r2 rc re y2 yc ye
  have "(\<lambda>r. scalar_key (p_id r)) ` set [example_post ''1'' 7] =
          (\<lambda>r. scalar_key (p_id r)) ` set (reddit_candidates ?F ?W1)"
    and "(\<lambda>v. scalar_key (v_videoId v)) ` set [example_video ''v1'' ''2024-01-03''] =
          (\<lambda>v. scalar_key (v_videoId v)) ` set (youtube_candidates ?Y 5 ?V1)"
    by blast+
  with r1 r2 y1 y2 show ?thesis by blast
qed

end
